theory Spec2Isabelle
  imports Complex_Main
begin

section \<open>Data model\<close>

text \<open>
  The tables of \<^verbatim>\<open>prisma/migrations/.../migration.sql\<close> that the transaction and loan
  services read and write. Identifiers (UUID strings in the database) are natural numbers
  drawn from one counter, monetary values (\<^verbatim>\<open>DECIMAL(18, 2)\<close>) are integers counting
  hundredths, dates are natural numbers. Columns that carry no logic in the two services
  (names of wallets and counterparties, notes, due dates, \<^verbatim>\<open>createdAt\<close>,
  \<^verbatim>\<open>updatedAt\<close>) are left out.

  The services take an amount as a JavaScript \<^verbatim>\<open>number\<close>. The two services are modelled
  below for amounts that are whole hundredths, compared and subtracted exactly, and with
  no limit on what a column holds. The code compares and subtracts doubles and each column
  rounds what it is given: section \<open>Amounts as JavaScript numbers\<close> models these conversions,
  the expense path on arbitrary numbers, and the ranges of values (\<open>comparable\<close>,
  \<open>subtractable\<close>) on which the code does what the model below does.
\<close>

type_synonym ident = nat
type_synonym money = int
type_synonym date = nat

datatype categoryType = CatIncome | CatExpense
datatype transactionType = income | expense | transfer
datatype direction = DirIn | DirOut
datatype loanKind = you_owe | owed_to_you
datatype loanStatus = LoanOpen | LoanClosed

record wallet =
  wallet_id :: ident
  wallet_userId :: ident
  openingBalance :: money
  currentBalance :: money
  isArchived :: bool

record category =
  category_id :: ident
  category_userId :: ident
  category_type :: categoryType
  category_name :: string
  isSystem :: bool

record transaction =
  transaction_id :: ident
  transaction_userId :: ident
  transaction_type :: transactionType
  transactionDate :: date
  transaction_categoryId :: "ident option"
  transaction_amount :: money
  transaction_deletedAt :: "date option"
  transaction_loanId :: "ident option"

record transactionEntry =
  entry_id :: ident
  entry_transactionId :: ident
  entry_walletId :: ident
  entry_direction :: direction
  entry_amount :: money

record loan =
  loan_id :: ident
  loan_userId :: ident
  loan_kind :: loanKind
  principal :: money
  outstandingAmount :: money
  startDate :: date
  loan_status :: loanStatus
  loan_deletedAt :: "date option"

record loanPayment =
  payment_id :: ident
  payment_loanId :: ident
  payment_userId :: ident
  payment_walletId :: ident
  payment_transactionId :: ident
  paymentDate :: date
  payment_amount :: money

record state =
  wallets :: "wallet list"
  categories :: "category list"
  transactions :: "transaction list"
  entries :: "transactionEntry list"
  loans :: "loan list"
  loanPayments :: "loanPayment list"
  nextId :: ident

text \<open>
  The messages of the \<^verbatim>\<open>Error\<close>s the services throw. \<open>RECORD_NOT_FOUND\<close> is the
  error of a Prisma \<^verbatim>\<open>update\<close> whose \<^verbatim>\<open>where\<close> matches no row, and
  \<open>VALIDATION_ERROR\<close> (an entry of the \<^verbatim>\<open>ErrorMap\<close>) is the answer to a request body
  that fails validation.
\<close>

datatype error =
    TRANSACTION_WALLET_NOT_FOUND
  | WALLET_NOT_FOUND
  | INSUFFICIENT_WALLET_BALANCE
  | TRANSACTION_CATEGORY_NOT_FOUND
  | INVALID_CATEGORY_TYPE_FOR_INCOME
  | INVALID_CATEGORY_TYPE_FOR_EXPENSE
  | SAME_WALLET_TRANSFER
  | UNSUPPORTED_TRANSACTION_TYPE
  | LOAN_NOT_FOUND
  | LOAN_ALREADY_CLOSED
  | LOAN_HAS_PAYMENTS
  | PAYMENT_EXCEEDS_OUTSTANDING
  | RECORD_NOT_FOUND
  | VALIDATION_ERROR

section \<open>The store\<close>

text \<open>
  \<^verbatim>\<open>prisma.$transaction(async (tx) => ...)\<close>: the callback runs on the store; when it
  throws, every write it made is rolled back and the error propagates. A callback is a
  function from the store to an error or a result with the new store.
\<close>

definition prisma_transaction ::
  "(state \<Rightarrow> error + 'a \<times> state) \<Rightarrow> state \<Rightarrow> (error + 'a) \<times> state" where
  "prisma_transaction body s =
     (case body s of Inl e \<Rightarrow> (Inl e, s) | Inr (r, s') \<Rightarrow> (Inr r, s'))"

text \<open>
  \<^verbatim>\<open>tx.wallet.update({ where: { id }, data: { currentBalance: { increment: amount } } })\<close>
  and its \<^verbatim>\<open>decrement\<close> twin: the balance of the row with that identifier is replaced;
  the update throws when there is no such row.
\<close>

definition increment :: "money \<Rightarrow> money \<Rightarrow> money" where
  "increment amount b = b + amount"

definition decrement :: "money \<Rightarrow> money \<Rightarrow> money" where
  "decrement amount b = b - amount"

definition updateBalance :: "ident \<Rightarrow> (money \<Rightarrow> money) \<Rightarrow> wallet list \<Rightarrow> wallet list" where
  "updateBalance walletId f ws =
     map (\<lambda>w. if wallet_id w = walletId then w\<lparr>currentBalance := f (currentBalance w)\<rparr> else w) ws"

definition wallet_update :: "ident \<Rightarrow> (money \<Rightarrow> money) \<Rightarrow> state \<Rightarrow> error + state" where
  "wallet_update walletId f s =
     (if \<exists>w \<in> set (wallets s). wallet_id w = walletId
      then Inr (s\<lparr>wallets := updateBalance walletId f (wallets s)\<rparr>)
      else Inl RECORD_NOT_FOUND)"

text \<open>
  \<^verbatim>\<open>tx.transaction.create({ data: { ..., entries: { create: ... } } })\<close>: one header row
  and its nested entry rows, each with a fresh identifier. The entries to create are given
  as (wallet, direction, amount).
\<close>

definition mk_entries ::
  "ident \<Rightarrow> ident \<Rightarrow> (ident \<times> direction \<times> money) list \<Rightarrow> transactionEntry list" where
  "mk_entries tid n specs =
     map (\<lambda>(i, (w, d, a)). \<lparr>entry_id = i, entry_transactionId = tid, entry_walletId = w,
                             entry_direction = d, entry_amount = a\<rparr>)
         (enumerate n specs)"

definition transaction_create ::
  "ident \<Rightarrow> transactionType \<Rightarrow> date \<Rightarrow> ident option \<Rightarrow> money \<Rightarrow> ident option \<Rightarrow>
   (ident \<times> direction \<times> money) list \<Rightarrow> state \<Rightarrow> (transaction \<times> transactionEntry list) \<times> state" where
  "transaction_create userId ty dt categoryId amount loanId specs s =
     (let tid = nextId s;
          t = \<lparr>transaction_id = tid, transaction_userId = userId, transaction_type = ty,
               transactionDate = dt, transaction_categoryId = categoryId,
               transaction_amount = amount, transaction_deletedAt = None,
               transaction_loanId = loanId\<rparr>;
          es = mk_entries tid (Suc tid) specs
      in ((t, es),
          s\<lparr>transactions := transactions s @ [t], entries := entries s @ es,
            nextId := Suc tid + length specs\<rparr>))"

text \<open>\<^verbatim>\<open>tx.transaction.update({ where: { id }, data: { deletedAt: new Date() } })\<close>\<close>

definition transaction_softDelete :: "ident \<Rightarrow> date \<Rightarrow> state \<Rightarrow> error + state" where
  "transaction_softDelete tid now s =
     (if \<exists>t \<in> set (transactions s). transaction_id t = tid
      then Inr (s\<lparr>transactions := map (\<lambda>t. if transaction_id t = tid
                                            then t\<lparr>transaction_deletedAt := Some now\<rparr>
                                            else t) (transactions s)\<rparr>)
      else Inl RECORD_NOT_FOUND)"

text \<open>\<^verbatim>\<open>tx.loan.update({ where: { id }, data })\<close>; the updated row is returned.\<close>

definition loan_update :: "ident \<Rightarrow> (loan \<Rightarrow> loan) \<Rightarrow> state \<Rightarrow> error + loan \<times> state" where
  "loan_update loanId f s =
     (case find (\<lambda>l. loan_id l = loanId) (loans s) of
        None \<Rightarrow> Inl RECORD_NOT_FOUND
      | Some l \<Rightarrow>
          Inr (f l, s\<lparr>loans := map (\<lambda>l. if loan_id l = loanId then f l else l) (loans s)\<rparr>))"

section \<open>Transaction service\<close>

text \<open>\<^verbatim>\<open>validateWalletOwnership\<close> of \<^verbatim>\<open>transaction.service.ts\<close>.\<close>

definition txn_validateWalletOwnership ::
  "ident \<Rightarrow> ident \<Rightarrow> money option \<Rightarrow> state \<Rightarrow> error + wallet" where
  "txn_validateWalletOwnership walletId userId requiredAmount s =
     (case find (\<lambda>w. wallet_id w = walletId \<and> wallet_userId w = userId \<and> \<not> isArchived w)
                (wallets s) of
        None \<Rightarrow> Inl TRANSACTION_WALLET_NOT_FOUND
      | Some w \<Rightarrow>
          (case requiredAmount of
             None \<Rightarrow> Inr w
           | Some r \<Rightarrow> if currentBalance w < r then Inl INSUFFICIENT_WALLET_BALANCE
                       else Inr w))"

definition validateCategoryOwnership ::
  "ident \<Rightarrow> ident \<Rightarrow> transactionType \<Rightarrow> state \<Rightarrow> error + category" where
  "validateCategoryOwnership categoryId userId transactionType s =
     (case find (\<lambda>c. category_id c = categoryId \<and> category_userId c = userId)
                (categories s) of
        None \<Rightarrow> Inl TRANSACTION_CATEGORY_NOT_FOUND
      | Some c \<Rightarrow>
          if transactionType = income \<and> category_type c \<noteq> CatIncome
          then Inl INVALID_CATEGORY_TYPE_FOR_INCOME
          else if transactionType = expense \<and> category_type c \<noteq> CatExpense
          then Inl INVALID_CATEGORY_TYPE_FOR_EXPENSE
          else Inr c)"

text \<open>
  \<^verbatim>\<open>tx.wallet.findUnique({ where: { id }, select: { currentBalance: true } })\<close> followed by
  \<^verbatim>\<open>if (!wallet || wallet.currentBalance.toNumber() < amount) throw ...\<close>: the balance
  check repeated inside the database transaction.
\<close>

definition recheckBalance :: "ident \<Rightarrow> money \<Rightarrow> state \<Rightarrow> error + unit" where
  "recheckBalance walletId amount s =
     (case find (\<lambda>w. wallet_id w = walletId) (wallets s) of
        None \<Rightarrow> Inl INSUFFICIENT_WALLET_BALANCE
      | Some w \<Rightarrow> if currentBalance w < amount then Inl INSUFFICIENT_WALLET_BALANCE
                  else Inr ())"

type_synonym transactionResult = "transaction \<times> transactionEntry list"

definition createIncomeTransaction ::
  "ident \<Rightarrow> ident \<Rightarrow> date \<Rightarrow> money \<Rightarrow> ident \<Rightarrow> state \<Rightarrow> (error + transactionResult) \<times> state" where
  "createIncomeTransaction walletId categoryId dt amount userId s =
     (case txn_validateWalletOwnership walletId userId None s of
        Inl e \<Rightarrow> (Inl e, s)
      | Inr _ \<Rightarrow>
     (case validateCategoryOwnership categoryId userId income s of
        Inl e \<Rightarrow> (Inl e, s)
      | Inr _ \<Rightarrow>
          prisma_transaction (\<lambda>tx.
            let (t, tx1) = transaction_create userId income dt (Some categoryId) amount None
                             [(walletId, DirIn, amount)] tx
            in case wallet_update walletId (increment amount) tx1 of
                 Inl e \<Rightarrow> Inl e
               | Inr tx2 \<Rightarrow> Inr (t, tx2)) s))"

definition createExpenseTransaction ::
  "ident \<Rightarrow> ident \<Rightarrow> date \<Rightarrow> money \<Rightarrow> ident \<Rightarrow> state \<Rightarrow> (error + transactionResult) \<times> state" where
  "createExpenseTransaction walletId categoryId dt amount userId s =
     (case txn_validateWalletOwnership walletId userId (Some amount) s of
        Inl e \<Rightarrow> (Inl e, s)
      | Inr _ \<Rightarrow>
     (case validateCategoryOwnership categoryId userId expense s of
        Inl e \<Rightarrow> (Inl e, s)
      | Inr _ \<Rightarrow>
          prisma_transaction (\<lambda>tx.
            case recheckBalance walletId amount tx of
              Inl e \<Rightarrow> Inl e
            | Inr _ \<Rightarrow>
                (let (t, tx1) = transaction_create userId expense dt (Some categoryId) amount None
                                  [(walletId, DirOut, amount)] tx
                 in (case wallet_update walletId (decrement amount) tx1 of
                       Inl e \<Rightarrow> Inl e
                     | Inr tx2 \<Rightarrow> Inr (t, tx2)))) s))"

definition createTransferTransaction ::
  "ident \<Rightarrow> ident \<Rightarrow> date \<Rightarrow> money \<Rightarrow> ident \<Rightarrow> state \<Rightarrow> (error + transactionResult) \<times> state" where
  "createTransferTransaction fromWalletId toWalletId dt amount userId s =
     (if fromWalletId = toWalletId then (Inl SAME_WALLET_TRANSFER, s)
      else
     (case txn_validateWalletOwnership fromWalletId userId (Some amount) s of
        Inl e \<Rightarrow> (Inl e, s)
      | Inr _ \<Rightarrow>
     (case txn_validateWalletOwnership toWalletId userId None s of
        Inl e \<Rightarrow> (Inl e, s)
      | Inr _ \<Rightarrow>
          prisma_transaction (\<lambda>tx.
            case recheckBalance fromWalletId amount tx of
              Inl e \<Rightarrow> Inl e
            | Inr _ \<Rightarrow>
                (let (t, tx1) = transaction_create userId transfer dt None amount None
                                  [(fromWalletId, DirOut, amount), (toWalletId, DirIn, amount)] tx
                 in (case wallet_update fromWalletId (decrement amount) tx1 of
                       Inl e \<Rightarrow> Inl e
                     | Inr tx2 \<Rightarrow>
                         (case wallet_update toWalletId (increment amount) tx2 of
                            Inl e \<Rightarrow> Inl e
                          | Inr tx3 \<Rightarrow> Inr (t, tx3))))) s)))"

text \<open>
  \<^verbatim>\<open>CreateTransactionData\<close>, a union discriminated by \<^verbatim>\<open>type\<close>; \<open>OtherData\<close> stands for
  any value of \<^verbatim>\<open>type\<close> outside the three, which reaches the \<^verbatim>\<open>default\<close> branch.
\<close>

datatype createTransactionData =
    IncomeData ident ident date money
  | ExpenseData ident ident date money
  | TransferData ident ident date money
  | OtherData

fun createTransaction ::
  "createTransactionData \<Rightarrow> ident \<Rightarrow> state \<Rightarrow> (error + transactionResult) \<times> state" where
  "createTransaction (IncomeData walletId categoryId dt amount) userId s =
     createIncomeTransaction walletId categoryId dt amount userId s"
| "createTransaction (ExpenseData walletId categoryId dt amount) userId s =
     createExpenseTransaction walletId categoryId dt amount userId s"
| "createTransaction (TransferData fromWalletId toWalletId dt amount) userId s =
     createTransferTransaction fromWalletId toWalletId dt amount userId s"
| "createTransaction OtherData userId s = (Inl UNSUPPORTED_TRANSACTION_TYPE, s)"

section \<open>Loan service\<close>

text \<open>\<^verbatim>\<open>validateWalletOwnership\<close> of \<^verbatim>\<open>loan.service.ts\<close>.\<close>

definition loan_validateWalletOwnership ::
  "ident \<Rightarrow> ident \<Rightarrow> money option \<Rightarrow> state \<Rightarrow> error + wallet" where
  "loan_validateWalletOwnership walletId userId requiredAmount s =
     (case find (\<lambda>w. wallet_id w = walletId \<and> wallet_userId w = userId \<and> \<not> isArchived w)
                (wallets s) of
        None \<Rightarrow> Inl WALLET_NOT_FOUND
      | Some w \<Rightarrow>
          (case requiredAmount of
             None \<Rightarrow> Inr w
           | Some r \<Rightarrow> if currentBalance w < r then Inl INSUFFICIENT_WALLET_BALANCE
                       else Inr w))"

definition validateLoanOwnership :: "ident \<Rightarrow> ident \<Rightarrow> state \<Rightarrow> error + loan" where
  "validateLoanOwnership loanId userId s =
     (case find (\<lambda>l. loan_id l = loanId \<and> loan_userId l = userId \<and> loan_deletedAt l = None)
                (loans s) of
        None \<Rightarrow> Inl LOAN_NOT_FOUND
      | Some l \<Rightarrow> if loan_status l = LoanClosed then Inl LOAN_ALREADY_CLOSED else Inr l)"

text \<open>
  The reserved names of the system categories looked up as defaults (written in ASCII
  here; the source has them in Vietnamese).
\<close>

definition name_borrow :: string where "name_borrow = ''Vay no''"
definition name_lend :: string where "name_lend = ''Cho vay''"
definition name_repay :: string where "name_repay = ''Tra no''"
definition name_collect :: string where "name_collect = ''Thu no''"

definition defaultCategory :: "ident \<Rightarrow> categoryType \<Rightarrow> string \<Rightarrow> state \<Rightarrow> ident option" where
  "defaultCategory userId ty name s =
     map_option category_id
       (find (\<lambda>c. category_userId c = userId \<and> category_type c = ty \<and>
                  category_name c = name \<and> isSystem c) (categories s))"

record createLoanData =
  cl_kind :: loanKind
  cl_principal :: money
  cl_walletId :: ident
  cl_startDate :: date

definition createLoan_body :: "createLoanData \<Rightarrow> ident \<Rightarrow> state \<Rightarrow> error + loan \<times> state" where
  "createLoan_body data userId tx =
     (let kind = cl_kind data; principal = cl_principal data; walletId = cl_walletId data;
          l = \<lparr>loan_id = nextId tx, loan_userId = userId, loan_kind = kind,
               principal = principal, outstandingAmount = principal,
               startDate = cl_startDate data, loan_status = LoanOpen, loan_deletedAt = None\<rparr>;
          tx1 = tx\<lparr>loans := loans tx @ [l], nextId := Suc (nextId tx)\<rparr>;
          transactionType = (if kind = you_owe then income else expense);
          entryDirection = (if kind = you_owe then DirIn else DirOut);
          categoryId = defaultCategory userId
                         (if kind = you_owe then CatIncome else CatExpense)
                         (if kind = you_owe then name_borrow else name_lend) tx1;
          (t, tx2) = transaction_create userId transactionType (cl_startDate data) categoryId
                       principal (Some (loan_id l)) [(walletId, entryDirection, principal)] tx1
      in case (if kind = you_owe then wallet_update walletId (increment principal) tx2
               else wallet_update walletId (decrement principal) tx2) of
           Inl e \<Rightarrow> Inl e
         | Inr tx3 \<Rightarrow> Inr (l, tx3))"

definition createLoan :: "createLoanData \<Rightarrow> ident \<Rightarrow> state \<Rightarrow> (error + loan) \<times> state" where
  "createLoan data userId s =
     (case loan_validateWalletOwnership (cl_walletId data) userId None s of
        Inl e \<Rightarrow> (Inl e, s)
      | Inr _ \<Rightarrow>
     (case (if cl_kind data = owed_to_you
            then map_sum id (\<lambda>_. ())
                   (loan_validateWalletOwnership (cl_walletId data) userId
                      (Some (cl_principal data)) s)
            else Inr ()) of
        Inl e \<Rightarrow> (Inl e, s)
      | Inr _ \<Rightarrow> prisma_transaction (createLoan_body data userId) s))"

text \<open>
  \<^verbatim>\<open>deleteLoan\<close>: the whole function runs inside the database transaction; \<open>now\<close> is the
  value of \<^verbatim>\<open>new Date()\<close>.
\<close>

definition reverseDisbursement :: "loan \<Rightarrow> ident \<Rightarrow> date \<Rightarrow> state \<Rightarrow> error + state" where
  "reverseDisbursement l userId now tx =
     (case find (\<lambda>t. transaction_userId t = userId \<and> transaction_deletedAt t = None \<and>
                     transaction_loanId t = Some (loan_id l)) (transactions tx) of
        None \<Rightarrow> Inr tx
      | Some baseTransaction \<Rightarrow>
          (case filter (\<lambda>e. entry_transactionId e = transaction_id baseTransaction)
                       (entries tx) of
             [entry] \<Rightarrow>
               (case (if loan_kind l = you_owe
                      then wallet_update (entry_walletId entry) (decrement (principal l)) tx
                      else wallet_update (entry_walletId entry) (increment (principal l)) tx) of
                  Inl e \<Rightarrow> Inl e
                | Inr tx1 \<Rightarrow> transaction_softDelete (transaction_id baseTransaction) now tx1)
           | _ \<Rightarrow> Inr tx))"

definition deleteLoan_body :: "ident \<Rightarrow> ident \<Rightarrow> date \<Rightarrow> state \<Rightarrow> error + loan \<times> state" where
  "deleteLoan_body loanId userId now tx =
     (case find (\<lambda>l. loan_id l = loanId \<and> loan_userId l = userId \<and> loan_deletedAt l = None)
                (loans tx) of
        None \<Rightarrow> Inl LOAN_NOT_FOUND
      | Some l \<Rightarrow>
          if length (take 1 (filter (\<lambda>p. payment_loanId p = loan_id l) (loanPayments tx))) > 0
          then Inl LOAN_HAS_PAYMENTS
          else (case reverseDisbursement l userId now tx of
                  Inl e \<Rightarrow> Inl e
                | Inr tx2 \<Rightarrow> loan_update loanId (\<lambda>l. l\<lparr>loan_deletedAt := Some now\<rparr>) tx2))"

definition deleteLoan :: "ident \<Rightarrow> ident \<Rightarrow> date \<Rightarrow> state \<Rightarrow> (error + loan) \<times> state" where
  "deleteLoan loanId userId now s = prisma_transaction (deleteLoan_body loanId userId now) s"

record createLoanPaymentData =
  cp_loanId :: ident
  cp_walletId :: ident
  cp_paymentDate :: date
  cp_amount :: money

definition createLoanPayment_body ::
  "loan \<Rightarrow> createLoanPaymentData \<Rightarrow> ident \<Rightarrow> state \<Rightarrow> error + loanPayment \<times> state" where
  "createLoanPayment_body l data userId tx =
     (let loanId = cp_loanId data; walletId = cp_walletId data; amount = cp_amount data;
          transactionType = (if loan_kind l = you_owe then expense else income);
          entryDirection = (if loan_kind l = you_owe then DirOut else DirIn);
          categoryId = defaultCategory userId
                         (if loan_kind l = you_owe then CatExpense else CatIncome)
                         (if loan_kind l = you_owe then name_repay else name_collect) tx;
          (t, tx1) = transaction_create userId transactionType (cp_paymentDate data) categoryId
                       amount None [(walletId, entryDirection, amount)] tx;
          loanPayment = \<lparr>payment_id = nextId tx1, payment_loanId = loanId,
                         payment_userId = userId, payment_walletId = walletId,
                         payment_transactionId = transaction_id (fst t),
                         paymentDate = cp_paymentDate data, payment_amount = amount\<rparr>;
          tx2 = tx1\<lparr>loanPayments := loanPayments tx1 @ [loanPayment],
                    nextId := Suc (nextId tx1)\<rparr>
      in case (if loan_kind l = you_owe then wallet_update walletId (decrement amount) tx2
               else wallet_update walletId (increment amount) tx2) of
           Inl e \<Rightarrow> Inl e
         | Inr tx3 \<Rightarrow>
             (let newOutstandingAmount = outstandingAmount l - amount;
                  newStatus = (if newOutstandingAmount \<le> 0 then LoanClosed else LoanOpen)
              in case loan_update loanId
                        (\<lambda>r. r\<lparr>outstandingAmount := max 0 newOutstandingAmount,
                               loan_status := newStatus\<rparr>) tx3 of
                   Inl e \<Rightarrow> Inl e
                 | Inr (_, tx4) \<Rightarrow> Inr (loanPayment, tx4)))"

definition createLoanPayment ::
  "createLoanPaymentData \<Rightarrow> ident \<Rightarrow> state \<Rightarrow> (error + loanPayment) \<times> state" where
  "createLoanPayment data userId s =
     (case validateLoanOwnership (cp_loanId data) userId s of
        Inl e \<Rightarrow> (Inl e, s)
      | Inr l \<Rightarrow>
          if cp_amount data > outstandingAmount l then (Inl PAYMENT_EXCEEDS_OUTSTANDING, s)
          else
            (case loan_validateWalletOwnership (cp_walletId data) userId
                    (if loan_kind l = you_owe then Some (cp_amount data) else None) s of
               Inl e \<Rightarrow> (Inl e, s)
             | Inr _ \<Rightarrow> prisma_transaction (createLoanPayment_body l data userId) s))"

text \<open>
  \<^verbatim>\<open>getLoanStats\<close>. \<^verbatim>\<open>prisma.loan.groupBy({ by: ['kind', 'status'], where, _count, _sum })\<close>
  returns one row for each pair of kind and status that some selected loan has, with the
  number of those loans and the sum of their outstanding amounts.
\<close>

record loanGroup =
  g_kind :: loanKind
  g_status :: loanStatus
  g_count :: nat
  g_sum :: money

definition loan_groupBy :: "ident \<Rightarrow> state \<Rightarrow> loanGroup list" where
  "loan_groupBy userId s =
     (let selected = filter (\<lambda>l. loan_userId l = userId \<and> loan_deletedAt l = None) (loans s)
      in concat (map (\<lambda>(k, st).
            let rows = filter (\<lambda>l. loan_kind l = k \<and> loan_status l = st) selected
            in if rows = [] then []
               else [\<lparr>g_kind = k, g_status = st, g_count = length rows,
                      g_sum = sum_list (map outstandingAmount rows)\<rparr>])
          [(you_owe, LoanOpen), (you_owe, LoanClosed),
           (owed_to_you, LoanOpen), (owed_to_you, LoanClosed)]))"

record loanBucket =
  b_count :: nat
  b_totalAmount :: money

record loanStats =
  youOwe :: loanBucket
  owedToYou :: loanBucket
  totalLoans :: nat

definition getLoanStats :: "ident \<Rightarrow> state \<Rightarrow> loanStats" where
  "getLoanStats userId s =
     (let loanStats = loan_groupBy userId s;
          youOweTotal = foldl (\<lambda>sum stat. sum + g_sum stat) 0
             (filter (\<lambda>stat. g_kind stat = you_owe \<and> g_status stat = LoanOpen) loanStats);
          owedToYouTotal = foldl (\<lambda>sum stat. sum + g_sum stat) 0
             (filter (\<lambda>stat. g_kind stat = owed_to_you \<and> g_status stat = LoanOpen) loanStats)
      in \<lparr>youOwe = \<lparr>b_count = foldl (\<lambda>sum s. sum + g_count s) 0
                        (filter (\<lambda>s. g_kind s = you_owe \<and> g_status s = LoanOpen) loanStats),
                     b_totalAmount = youOweTotal\<rparr>,
          owedToYou = \<lparr>b_count = foldl (\<lambda>sum s. sum + g_count s) 0
                        (filter (\<lambda>s. g_kind s = owed_to_you \<and> g_status s = LoanOpen) loanStats),
                       b_totalAmount = owedToYouTotal\<rparr>,
          totalLoans = foldl (\<lambda>sum stat. sum + g_count stat) 0 loanStats\<rparr>)"

section \<open>Notions used in the statements\<close>

text \<open>The balance stored for a wallet identifier, and the wallet a caller may post to.\<close>

definition balanceOf :: "state \<Rightarrow> ident \<Rightarrow> money option" where
  "balanceOf s walletId =
     map_option currentBalance (find (\<lambda>w. wallet_id w = walletId) (wallets s))"

definition ownedWallet :: "state \<Rightarrow> ident \<Rightarrow> ident \<Rightarrow> wallet option" where
  "ownedWallet s walletId userId =
     find (\<lambda>w. wallet_id w = walletId \<and> wallet_userId w = userId \<and> \<not> isArchived w)
          (wallets s)"

text \<open>The loan a caller may act on: present, owned by the caller and not soft-deleted.\<close>

definition ownedLoan :: "state \<Rightarrow> ident \<Rightarrow> ident \<Rightarrow> loan option" where
  "ownedLoan s loanId userId =
     find (\<lambda>l. loan_id l = loanId \<and> loan_userId l = userId \<and> loan_deletedAt l = None)
          (loans s)"

text \<open>A store used to run the operations on concrete inputs.\<close>

definition demo :: state where
  "demo =
     \<lparr>wallets = [\<lparr>wallet_id = 1, wallet_userId = 7, openingBalance = 50000,
                  currentBalance = 50000, isArchived = False\<rparr>,
                 \<lparr>wallet_id = 2, wallet_userId = 7, openingBalance = 10000,
                  currentBalance = 10000, isArchived = False\<rparr>],
      categories = [\<lparr>category_id = 3, category_userId = 7, category_type = CatExpense,
                     category_name = ''Food'', isSystem = False\<rparr>,
                    \<lparr>category_id = 4, category_userId = 7, category_type = CatIncome,
                     category_name = ''Salary'', isSystem = False\<rparr>],
      transactions = [], entries = [], loans = [], loanPayments = [], nextId = 10\<rparr>"

text \<open>
  The store after a loan of 500.00 is taken into wallet 1 (\<open>demo_loan\<close>), and after it is
  repaid in full from the same wallet (\<open>demo_paid\<close>).
\<close>

definition demo_loan :: state where
  "demo_loan =
     snd (createLoan \<lparr>cl_kind = you_owe, cl_principal = 50000, cl_walletId = 1,
                      cl_startDate = 0\<rparr> 7 demo)"

definition demo_paid :: state where
  "demo_paid =
     snd (createLoanPayment \<lparr>cp_loanId = 10, cp_walletId = 1, cp_paymentDate = 1,
                             cp_amount = 50000\<rparr> 7 demo_loan)"

text \<open>
  What \<open>deleteLoan\<close> looks for before it reverses a disbursement: the caller's live
  transaction that carries the loan's identifier, provided it has exactly one entry.
\<close>

definition originatingEntry ::
  "state \<Rightarrow> loan \<Rightarrow> ident \<Rightarrow> (transaction \<times> transactionEntry) option" where
  "originatingEntry s l userId =
     (case find (\<lambda>t. transaction_userId t = userId \<and> transaction_deletedAt t = None \<and>
                     transaction_loanId t = Some (loan_id l)) (transactions s) of
        None \<Rightarrow> None
      | Some baseTransaction \<Rightarrow>
          (case filter (\<lambda>e. entry_transactionId e = transaction_id baseTransaction)
                       (entries s) of
             [entry] \<Rightarrow> Some (baseTransaction, entry)
           | _ \<Rightarrow> None))"

definition softDeleteLoan :: "ident \<Rightarrow> date \<Rightarrow> loan list \<Rightarrow> loan list" where
  "softDeleteLoan loanId now ls =
     map (\<lambda>l. if loan_id l = loanId then l\<lparr>loan_deletedAt := Some now\<rparr> else l) ls"

definition softDeleteTransaction :: "ident \<Rightarrow> date \<Rightarrow> transaction list \<Rightarrow> transaction list" where
  "softDeleteTransaction tid now ts =
     map (\<lambda>t. if transaction_id t = tid then t\<lparr>transaction_deletedAt := Some now\<rparr> else t) ts"

text \<open>
  A store holding a loan whose disbursement transaction carries no back-reference to it
  (the column \<^verbatim>\<open>loanId\<close> of \<^verbatim>\<open>Transaction\<close> is nullable and was added by a later
  migration).
\<close>

definition legacy :: state where
  "legacy =
     \<lparr>wallets = [\<lparr>wallet_id = 1, wallet_userId = 7, openingBalance = 0,
                  currentBalance = 50000, isArchived = False\<rparr>],
      categories = [],
      transactions = [\<lparr>transaction_id = 3, transaction_userId = 7, transaction_type = income,
                       transactionDate = 0, transaction_categoryId = None,
                       transaction_amount = 50000, transaction_deletedAt = None,
                       transaction_loanId = None\<rparr>],
      entries = [\<lparr>entry_id = 4, entry_transactionId = 3, entry_walletId = 1,
                  entry_direction = DirIn, entry_amount = 50000\<rparr>],
      loans = [\<lparr>loan_id = 5, loan_userId = 7, loan_kind = you_owe, principal = 50000,
                outstandingAmount = 50000, startDate = 0, loan_status = LoanOpen,
                loan_deletedAt = None\<rparr>],
      loanPayments = [], nextId = 10\<rparr>"

section \<open>Histories of operations\<close>

text \<open>
  A call of one of the four state-changing operations of the two services, with its
  arguments; \<open>perform\<close> is the store after the call (the store before it when the call
  throws), and \<open>run\<close> performs a sequence of calls one after the other.
\<close>

datatype request =
    CreateTransaction createTransactionData ident
  | CreateLoan createLoanData ident
  | CreateLoanPayment createLoanPaymentData ident
  | DeleteLoan ident ident date

fun perform :: "request \<Rightarrow> state \<Rightarrow> state" where
  "perform (CreateTransaction d u) s = snd (createTransaction d u s)"
| "perform (CreateLoan d u) s = snd (createLoan d u s)"
| "perform (CreateLoanPayment d u) s = snd (createLoanPayment d u s)"
| "perform (DeleteLoan i u now) s = snd (deleteLoan i u now s)"

fun run :: "request list \<Rightarrow> state \<Rightarrow> state" where
  "run [] s = s"
| "run (r # rs) s = run rs (perform r s)"

text \<open>The monetary amount a call carries, if it carries one.\<close>

fun requestAmount :: "request \<Rightarrow> money option" where
  "requestAmount (CreateTransaction (IncomeData w c dt a) u) = Some a"
| "requestAmount (CreateTransaction (ExpenseData w c dt a) u) = Some a"
| "requestAmount (CreateTransaction (TransferData f t dt a) u) = Some a"
| "requestAmount (CreateTransaction OtherData u) = None"
| "requestAmount (CreateLoan d u) = Some (cl_principal d)"
| "requestAmount (CreateLoanPayment d u) = Some (cp_amount d)"
| "requestAmount (DeleteLoan i u now) = None"

text \<open>
  A store before any posting: wallets exist with their opening balances, and there is no
  transaction, entry, loan or payment yet.
\<close>

definition emptyLedger :: "state \<Rightarrow> bool" where
  "emptyLedger s \<longleftrightarrow>
     transactions s = [] \<and> entries s = [] \<and> loans s = [] \<and> loanPayments s = [] \<and>
     (\<forall>w \<in> set (wallets s). currentBalance w = openingBalance w)"

section \<open>The ledger and the loan book\<close>

text \<open>
  The signed amount of an entry, and the signed sum of the entries posted to a wallet
  under transactions that are not soft-deleted.
\<close>

definition signed :: "transactionEntry \<Rightarrow> money" where
  "signed e = (case entry_direction e of DirIn \<Rightarrow> entry_amount e | DirOut \<Rightarrow> - entry_amount e)"

definition tx_live :: "transaction list \<Rightarrow> ident \<Rightarrow> bool" where
  "tx_live ts tid \<longleftrightarrow>
     (\<exists>t \<in> set ts. transaction_id t = tid \<and> transaction_deletedAt t = None)"

definition ledgerSum :: "transaction list \<Rightarrow> transactionEntry list \<Rightarrow> ident \<Rightarrow> money" where
  "ledgerSum ts es walletId =
     sum_list (map signed
       (filter (\<lambda>e. entry_walletId e = walletId \<and> tx_live ts (entry_transactionId e)) es))"

definition balanced :: "state \<Rightarrow> bool" where
  "balanced s \<longleftrightarrow>
     (\<forall>w \<in> set (wallets s).
        currentBalance w =
          openingBalance w + ledgerSum (transactions s) (entries s) (wallet_id w))"

text \<open>The sum of the payments recorded for a loan.\<close>

definition paidSum :: "loanPayment list \<Rightarrow> ident \<Rightarrow> money" where
  "paidSum ps loanId =
     sum_list (map payment_amount (filter (\<lambda>p. payment_loanId p = loanId) ps))"

text \<open>
  Auxiliary invariants: identifiers in use are below the counter; the single entry of a
  transaction that carries a loan's identifier mirrors the disbursement of that loan;
  loans have distinct identifiers, and their outstanding amount is what remains of the
  principal.
\<close>

definition ids_fresh :: "state \<Rightarrow> bool" where
  "ids_fresh s \<longleftrightarrow>
     (\<forall>e \<in> set (entries s). entry_transactionId e < nextId s) \<and>
     (\<forall>t \<in> set (transactions s). transaction_id t < nextId s \<and>
        (\<forall>i. transaction_loanId t = Some i \<longrightarrow> i < nextId s)) \<and>
     (\<forall>l \<in> set (loans s). loan_id l < nextId s) \<and>
     (\<forall>p \<in> set (loanPayments s). payment_loanId p < nextId s)"

definition disbursement_linked :: "state \<Rightarrow> bool" where
  "disbursement_linked s \<longleftrightarrow>
     (\<forall>l \<in> set (loans s). \<forall>t \<in> set (transactions s).
        transaction_loanId t = Some (loan_id l) \<longrightarrow>
        (\<forall>e. filter (\<lambda>e. entry_transactionId e = transaction_id t) (entries s) = [e] \<longrightarrow>
             signed e = (if loan_kind l = you_owe then principal l else - principal l)))"

definition loans_accounted :: "state \<Rightarrow> bool" where
  "loans_accounted s \<longleftrightarrow>
     distinct (map loan_id (loans s)) \<and>
     (\<forall>l \<in> set (loans s).
        outstandingAmount l = principal l - paidSum (loanPayments s) (loan_id l) \<and>
        0 \<le> outstandingAmount l \<and>
        (loan_status l = LoanClosed \<longleftrightarrow> outstandingAmount l = 0))"

text \<open>The loan rows after a payment of \<open>amount\<close> on the loan \<open>l\<close> read by the service.\<close>

definition settleLoans :: "loan \<Rightarrow> ident \<Rightarrow> money \<Rightarrow> loan list \<Rightarrow> loan list" where
  "settleLoans l loanId amount ls =
     map (\<lambda>r. if loan_id r = loanId
              then r\<lparr>outstandingAmount := max 0 (outstandingAmount l - amount),
                     loan_status := (if outstandingAmount l - amount \<le> 0
                                     then LoanClosed else LoanOpen)\<rparr>
              else r) ls"

text \<open>A history of calls on \<open>demo\<close>, some of which fail.\<close>

definition demo_history :: "request list" where
  "demo_history =
     [CreateLoan \<lparr>cl_kind = you_owe, cl_principal = 50000, cl_walletId = 1, cl_startDate = 0\<rparr> 7,
      CreateTransaction (ExpenseData 1 3 1 30000) 7,
      CreateTransaction (TransferData 1 2 2 20000) 7,
      CreateTransaction (ExpenseData 2 3 2 90000) 7,
      CreateLoanPayment \<lparr>cp_loanId = 10, cp_walletId = 2, cp_paymentDate = 3,
                         cp_amount = 20000\<rparr> 7,
      CreateLoan \<lparr>cl_kind = owed_to_you, cl_principal = 10000, cl_walletId = 2,
                  cl_startDate = 4\<rparr> 7,
      DeleteLoan 21 7 5,
      DeleteLoan 10 7 6,
      CreateLoanPayment \<lparr>cp_loanId = 10, cp_walletId = 1, cp_paymentDate = 7,
                         cp_amount = 30000\<rparr> 7]"

section \<open>Entry points\<close>

text \<open>
  The four calls behind one interface: \<open>serve\<close> hands a request to its service function
  and wraps the result.
\<close>

datatype response =
    TransactionCreated transactionResult
  | LoanCreated loan
  | PaymentCreated loanPayment
  | LoanDeleted loan

fun serve :: "request \<Rightarrow> state \<Rightarrow> (error + response) \<times> state" where
  "serve (CreateTransaction d u) s =
     (case createTransaction d u s of (r, s') \<Rightarrow> (map_sum id TransactionCreated r, s'))"
| "serve (CreateLoan d u) s =
     (case createLoan d u s of (r, s') \<Rightarrow> (map_sum id LoanCreated r, s'))"
| "serve (CreateLoanPayment d u) s =
     (case createLoanPayment d u s of (r, s') \<Rightarrow> (map_sum id PaymentCreated r, s'))"
| "serve (DeleteLoan i u now) s =
     (case deleteLoan i u now s of (r, s') \<Rightarrow> (map_sum id LoanDeleted r, s'))"

text \<open>
  Modelled from the spec: the validation of request bodies, which lives in the schema
  modules \<^verbatim>\<open>transaction.schema\<close> and \<^verbatim>\<open>loan.schema\<close> (imported by the services for
  their input types, but not among the sources) and runs before a service function is
  called. The spec says of it: non-positive amounts are validation errors, caught before
  any store access; amounts \<open>\<le> 0\<close> are rejected at every entry point. The service
  functions themselves contain no such check.
\<close>

definition entryPoint :: "request \<Rightarrow> state \<Rightarrow> (error + response) \<times> state" where
  "entryPoint r s =
     (case requestAmount r of
        None \<Rightarrow> serve r s
      | Some a \<Rightarrow> if a \<le> 0 then (Inl VALIDATION_ERROR, s) else serve r s)"

text \<open>
  A further auxiliary invariant: transactions have distinct identifiers, a transaction
  that carries a loan's identifier has exactly one entry, and every loan that is not
  soft-deleted has a live transaction of its owner carrying its identifier.
\<close>

definition disbursement_present :: "state \<Rightarrow> bool" where
  "disbursement_present s \<longleftrightarrow>
     distinct (map transaction_id (transactions s)) \<and>
     (\<forall>t \<in> set (transactions s). transaction_loanId t \<noteq> None \<longrightarrow>
        (\<exists>e. filter (\<lambda>e. entry_transactionId e = transaction_id t) (entries s) = [e])) \<and>
     (\<forall>l \<in> set (loans s). loan_deletedAt l = None \<longrightarrow>
        (\<exists>t \<in> set (transactions s).
           transaction_userId t = loan_userId l \<and> transaction_deletedAt t = None \<and>
           transaction_loanId t = Some (loan_id l)))"

section \<open>Amounts as JavaScript numbers\<close>

text \<open>
  The services receive an amount as a JavaScript \<^verbatim>\<open>number\<close> and read a stored value
  with \<^verbatim>\<open>toNumber()\<close>: both are IEEE doubles. \<open>nearestDouble\<close> is the double nearest to
  a rational (ties to the even significand; overflow and subnormals left out, which no
  value of a \<^verbatim>\<open>DECIMAL(18, 2)\<close> column reaches), and \<open>toNumber\<close> is
  \<^verbatim>\<open>Decimal.toNumber()\<close> on a stored value.
\<close>

function floorlog2 :: "int \<Rightarrow> int" where
  "floorlog2 n = (if n < 2 then 0 else 1 + floorlog2 (n div 2))"
  by pat_completeness auto
termination
  by (relation "measure nat") auto

declare floorlog2.simps [simp del]

definition pow2 :: "int \<Rightarrow> rat" where
  "pow2 e = (if 0 \<le> e then 2 ^ nat e else 1 / 2 ^ nat (- e))"

definition binaryExponent :: "rat \<Rightarrow> int" where
  "binaryExponent x =
     (if 1 \<le> x then floorlog2 \<lfloor>x\<rfloor>
      else (let k = floorlog2 \<lfloor>1 / x\<rfloor>
            in if 1 / x = pow2 k then - k else - k - 1))"

definition roundHalfEven :: "rat \<Rightarrow> int" where
  "roundHalfEven q =
     (let f = \<lfloor>q\<rfloor>; r = q - of_int f
      in if r < 1 / 2 then f else if 1 / 2 < r then f + 1 else if even f then f else f + 1)"

definition nearestDouble :: "rat \<Rightarrow> rat" where
  "nearestDouble x =
     (if x = 0 then 0
      else (let e = binaryExponent \<bar>x\<bar> - 52;
                m = roundHalfEven (\<bar>x\<bar> / pow2 e)
            in sgn x * of_int m * pow2 e))"

definition toNumber :: "money \<Rightarrow> rat" where
  "toNumber v = nearestDouble (of_int v / 100)"

text \<open>
  What a \<^verbatim>\<open>DECIMAL(18, 2)\<close> column stores for an exact decimal value: the value rounded
  to hundredths, halves away from zero; a value with more than 16 integer digits is
  refused.
\<close>

definition decimal_18_2 :: "rat \<Rightarrow> money option" where
  "decimal_18_2 x =
     (let n = (if 0 \<le> x then \<lfloor>x * 100 + 1 / 2\<rfloor> else - \<lfloor>- x * 100 + 1 / 2\<rfloor>)
      in if \<bar>n\<bar> < 10 ^ 18 then Some n else None)"

text \<open>
  \<^verbatim>\<open>createExpenseTransaction\<close> again, for an amount that is any JavaScript number and not
  only a whole number of hundredths. The number is given by the decimal it is written as,
  which is the value Prisma sends to the database; the two balance checks compare its
  double with \<^verbatim>\<open>currentBalance.toNumber()\<close>; the header, the entry and the wallet each
  round what they are given to their own \<^verbatim>\<open>DECIMAL(18, 2)\<close> column, and a value the column
  cannot hold makes the write fail (Prisma error P2020). The database transaction is
  written out: a failure inside it leaves the store as it was.
\<close>

datatype failure = Thrown error | P2020

definition validateWalletOwnership_number ::
  "ident \<Rightarrow> ident \<Rightarrow> rat option \<Rightarrow> state \<Rightarrow> failure + wallet" where
  "validateWalletOwnership_number walletId userId requiredAmount s =
     (case find (\<lambda>w. wallet_id w = walletId \<and> wallet_userId w = userId \<and> \<not> isArchived w)
                (wallets s) of
        None \<Rightarrow> Inl (Thrown TRANSACTION_WALLET_NOT_FOUND)
      | Some w \<Rightarrow>
          (case requiredAmount of
             None \<Rightarrow> Inr w
           | Some r \<Rightarrow> if toNumber (currentBalance w) < nearestDouble r
                       then Inl (Thrown INSUFFICIENT_WALLET_BALANCE)
                       else Inr w))"

definition recheckBalance_number :: "ident \<Rightarrow> rat \<Rightarrow> state \<Rightarrow> failure + unit" where
  "recheckBalance_number walletId amount s =
     (case find (\<lambda>w. wallet_id w = walletId) (wallets s) of
        None \<Rightarrow> Inl (Thrown INSUFFICIENT_WALLET_BALANCE)
      | Some w \<Rightarrow> if toNumber (currentBalance w) < nearestDouble amount
                  then Inl (Thrown INSUFFICIENT_WALLET_BALANCE)
                  else Inr ())"

definition wallet_decrement_number :: "ident \<Rightarrow> rat \<Rightarrow> state \<Rightarrow> failure + state" where
  "wallet_decrement_number walletId amount s =
     (case find (\<lambda>w. wallet_id w = walletId) (wallets s) of
        None \<Rightarrow> Inl (Thrown RECORD_NOT_FOUND)
      | Some w \<Rightarrow>
          (case decimal_18_2 (of_int (currentBalance w) / 100 - amount) of
             None \<Rightarrow> Inl P2020
           | Some b \<Rightarrow> Inr (s\<lparr>wallets := updateBalance walletId (\<lambda>_. b) (wallets s)\<rparr>)))"

definition createExpenseTransaction_number ::
  "ident \<Rightarrow> ident \<Rightarrow> date \<Rightarrow> rat \<Rightarrow> ident \<Rightarrow> state \<Rightarrow> (failure + transactionResult) \<times> state" where
  "createExpenseTransaction_number walletId categoryId dt amount userId s =
     (case validateWalletOwnership_number walletId userId (Some amount) s of
        Inl e \<Rightarrow> (Inl e, s)
      | Inr _ \<Rightarrow>
     (case validateCategoryOwnership categoryId userId expense s of
        Inl e \<Rightarrow> (Inl (Thrown e), s)
      | Inr _ \<Rightarrow>
     (case (case recheckBalance_number walletId amount s of
              Inl e \<Rightarrow> Inl e
            | Inr _ \<Rightarrow>
                (case decimal_18_2 amount of
                   None \<Rightarrow> Inl P2020
                 | Some stored \<Rightarrow>
                     (let (t, tx1) = transaction_create userId expense dt (Some categoryId) stored
                                       None [(walletId, DirOut, stored)] s
                      in (case wallet_decrement_number walletId amount tx1 of
                            Inl e \<Rightarrow> Inl e
                          | Inr tx2 \<Rightarrow> Inr (t, tx2))))) of
        Inl e \<Rightarrow> (Inl e, s)
      | Inr (r, s') \<Rightarrow> (Inr r, s'))))"

text \<open>
  The guard of \<^verbatim>\<open>createLoanPayment\<close>, \<^verbatim>\<open>amount > loan.outstandingAmount.toNumber()\<close>, for an
  amount that is any JavaScript number.
\<close>

definition exceedsOutstanding :: "rat \<Rightarrow> money \<Rightarrow> bool" where
  "exceedsOutstanding amount outstanding \<longleftrightarrow> toNumber outstanding < nearestDouble amount"

text \<open>A user with one wallet that holds 0.02 and one expense category.\<close>

definition two_cents :: state where
  "two_cents =
     \<lparr>wallets = [\<lparr>wallet_id = 1, wallet_userId = 7, openingBalance = 2, currentBalance = 2,
                  isArchived = False\<rparr>],
      categories = [\<lparr>category_id = 3, category_userId = 7, category_type = CatExpense,
                     category_name = ''Food'', isSystem = False\<rparr>],
      transactions = [], entries = [], loans = [], loanPayments = [], nextId = 10\<rparr>"

text \<open>The same user with 70368744177664.01 in the wallet.\<close>

definition large_wallet :: state where
  "large_wallet =
     two_cents\<lparr>wallets := [\<lparr>wallet_id = 1, wallet_userId = 7,
                               openingBalance = 7036874417766401,
                               currentBalance = 7036874417766401, isArchived = False\<rparr>]\<rparr>"

text \<open>
  Where the services agree with exact arithmetic on hundredths. Up to
  \<open>2 ^ 46 = 70368744177664\<close> units in magnitude, two values that differ by a hundredth or more
  have different doubles, in the same order, so \<^verbatim>\<open>a.toNumber() < b\<close> and \<^verbatim>\<open>b > a.toNumber()\<close>
  compare the values themselves (\<open>comparable\<close>); just above, neighbouring hundredths share a
  double. From 0 to \<open>2 ^ 44 = 17592186044416\<close> units, the difference
  \<^verbatim>\<open>a.toNumber() - b\<close> of two values with \<open>b \<le> a\<close>, once stored in a \<^verbatim>\<open>DECIMAL(18, 2)\<close> column,
  is their exact difference (\<open>subtractable\<close>): the three roundings, of \<open>a\<close>, of \<open>b\<close> and of the
  difference, add up to less than half a hundredth. Sums of two comparable values are far
  below the \<open>10 ^ 16\<close> units at which a column overflows.
\<close>

definition comparable :: "money \<Rightarrow> bool" where
  "comparable v \<longleftrightarrow> \<bar>v\<bar> \<le> 100 * 2 ^ 46"



section \<open>Helper facts about the store\<close>

lemma prisma_transaction_error:
  "isl (fst (prisma_transaction body s)) \<Longrightarrow> snd (prisma_transaction body s) = s"
  by (auto simp: prisma_transaction_def split: sum.splits)

lemma set_updateBalance_ids:
  "(\<exists>w \<in> set (updateBalance i f ws). wallet_id w = j) = (\<exists>w \<in> set ws. wallet_id w = j)"
  by (induction ws) (auto simp: updateBalance_def)

lemma find_updateBalance:
  "find (\<lambda>w. wallet_id w = j) (updateBalance i f ws) =
     map_option (\<lambda>w. if wallet_id w = i then w\<lparr>currentBalance := f (currentBalance w)\<rparr> else w)
       (find (\<lambda>w. wallet_id w = j) ws)"
  by (induction ws) (auto simp: updateBalance_def)

lemma balanceOf_updateBalance:
  "balanceOf (s\<lparr>wallets := updateBalance i f (wallets s)\<rparr>) j =
     (if j = i then map_option f (balanceOf s j) else balanceOf s j)"
proof (cases "find (\<lambda>w. wallet_id w = j) (wallets s)")
  case None
  then show ?thesis by (auto simp: balanceOf_def find_updateBalance)
next
  case (Some w)
  then have "wallet_id w = j" by (auto simp: find_Some_iff)
  with Some show ?thesis by (auto simp: balanceOf_def find_updateBalance)
qed

lemma find_by_id_distinct:
  "distinct (map wallet_id ws) \<Longrightarrow> find (\<lambda>w. wallet_id w = i \<and> Q w) ws = Some x \<Longrightarrow>
   find (\<lambda>w. wallet_id w = i) ws = Some x"
proof (induction ws)
  case Nil
  then show ?case by simp
next
  case (Cons w ws)
  show ?case
  proof (cases "wallet_id w = i")
    case True
    with Cons.prems show ?thesis
      by (auto simp: find_Some_iff split: if_splits) (metis image_eqI nth_mem)
  next
    case False
    with Cons show ?thesis by simp
  qed
qed

lemma ownedWallet_balanceOf:
  "distinct (map wallet_id (wallets s)) \<Longrightarrow> ownedWallet s i u = Some w \<Longrightarrow>
   find (\<lambda>w. wallet_id w = i) (wallets s) = Some w"
  unfolding ownedWallet_def by (rule find_by_id_distinct)

lemma ownedWallet_exists:
  "ownedWallet s i u = Some w \<Longrightarrow> \<exists>w \<in> set (wallets s). wallet_id w = i"
  by (auto simp: ownedWallet_def find_Some_iff)


section \<open>Errors leave the store unchanged\<close>

lemma createIncomeTransaction_error:
  "isl (fst (createIncomeTransaction w c dt a u s)) \<Longrightarrow>
   snd (createIncomeTransaction w c dt a u s) = s"
  unfolding createIncomeTransaction_def
  by (auto split: sum.splits dest: prisma_transaction_error)

lemma createExpenseTransaction_error:
  "isl (fst (createExpenseTransaction w c dt a u s)) \<Longrightarrow>
   snd (createExpenseTransaction w c dt a u s) = s"
  unfolding createExpenseTransaction_def
  by (auto split: sum.splits dest: prisma_transaction_error)

lemma createTransferTransaction_error:
  "isl (fst (createTransferTransaction f t dt a u s)) \<Longrightarrow>
   snd (createTransferTransaction f t dt a u s) = s"
  unfolding createTransferTransaction_def
  by (auto split: sum.splits if_splits dest: prisma_transaction_error)

lemma createTransaction_error:
  "isl (fst (createTransaction d u s)) \<Longrightarrow> snd (createTransaction d u s) = s"
  by (cases d) (simp_all add: createIncomeTransaction_error createExpenseTransaction_error
      createTransferTransaction_error)

lemma createLoan_error:
  "isl (fst (createLoan d u s)) \<Longrightarrow> snd (createLoan d u s) = s"
  unfolding createLoan_def
  by (auto split: sum.splits if_splits dest: prisma_transaction_error)

lemma createLoanPayment_error:
  "isl (fst (createLoanPayment d u s)) \<Longrightarrow> snd (createLoanPayment d u s) = s"
  unfolding createLoanPayment_def
  by (auto split: sum.splits if_splits dest: prisma_transaction_error)

lemma deleteLoan_error:
  "isl (fst (deleteLoan l u now s)) \<Longrightarrow> snd (deleteLoan l u now s) = s"
  unfolding deleteLoan_def by (rule prisma_transaction_error)

section \<open>Transaction service\<close>

lemma balanceOf_updateBalance':
  "wallets s' = updateBalance i f (wallets s) \<Longrightarrow>
   balanceOf s' j = (if j = i then map_option f (balanceOf s j) else balanceOf s j)"
  using balanceOf_updateBalance[where s = s and i = i and f = f and j = j]
  by (simp add: balanceOf_def)

lemma createTransferTransaction_success:
  assumes "createTransferTransaction f t dt a u s = (Inr r, s')"
  shows "f \<noteq> t \<and>
         (\<exists>w. ownedWallet s f u = Some w \<and> a \<le> currentBalance w) \<and>
         (\<exists>w. ownedWallet s t u = Some w) \<and>
         r = (\<lparr>transaction_id = nextId s, transaction_userId = u, transaction_type = transfer,
               transactionDate = dt, transaction_categoryId = None, transaction_amount = a,
               transaction_deletedAt = None, transaction_loanId = None\<rparr>,
              [\<lparr>entry_id = nextId s + 1, entry_transactionId = nextId s, entry_walletId = f,
                entry_direction = DirOut, entry_amount = a\<rparr>,
               \<lparr>entry_id = nextId s + 2, entry_transactionId = nextId s, entry_walletId = t,
                entry_direction = DirIn, entry_amount = a\<rparr>]) \<and>
         s' = s\<lparr>transactions := transactions s @ [fst r], entries := entries s @ snd r,
                 nextId := nextId s + 3,
                 wallets := updateBalance t (increment a)
                              (updateBalance f (decrement a) (wallets s))\<rparr>"
  using assms
  unfolding createTransferTransaction_def txn_validateWalletOwnership_def
    ownedWallet_def[symmetric]
  apply (simp split: if_splits option.splits)
  apply (auto simp: prisma_transaction_def recheckBalance_def transaction_create_def
      mk_entries_def wallet_update_def set_updateBalance_ids Let_def
      split: option.splits if_splits sum.splits)
  done




section \<open>All or nothing\<close>

text \<open>
  C3. Whenever \<open>createTransaction\<close>, \<open>createLoan\<close>, \<open>createLoanPayment\<close> or \<open>deleteLoan\<close>
  returns an error, the store after the call (wallets and their balances, categories,
  transactions, entries, loans, loan payments) is the store before the call.
\<close>

theorem error_leaves_store_unchanged:
  "(isl (fst (createTransaction td u s)) \<longrightarrow> snd (createTransaction td u s) = s) \<and>
   (isl (fst (createLoan ld u s)) \<longrightarrow> snd (createLoan ld u s) = s) \<and>
   (isl (fst (createLoanPayment pd u s)) \<longrightarrow> snd (createLoanPayment pd u s) = s) \<and>
   (isl (fst (deleteLoan l u now s)) \<longrightarrow> snd (deleteLoan l u now s) = s)"
  by (simp add: createTransaction_error createLoan_error createLoanPayment_error
      deleteLoan_error)

theorem error_leaves_store_unchanged_witness:
  "createTransaction (ExpenseData 2 3 0 15000) 7 demo = (Inl INSUFFICIENT_WALLET_BALANCE, demo) \<and>
   createLoan \<lparr>cl_kind = owed_to_you, cl_principal = 60000, cl_walletId = 1, cl_startDate = 0\<rparr> 7 demo
     = (Inl INSUFFICIENT_WALLET_BALANCE, demo) \<and>
   createLoanPayment \<lparr>cp_loanId = 5, cp_walletId = 1, cp_paymentDate = 0, cp_amount = 100\<rparr> 7 demo
     = (Inl LOAN_NOT_FOUND, demo) \<and>
   deleteLoan 5 7 0 demo = (Inl LOAN_NOT_FOUND, demo)"
proof -
  have e1: "fst (createTransaction (ExpenseData 2 3 0 15000) 7 demo) = Inl INSUFFICIENT_WALLET_BALANCE"
    by code_simp
  have e2: "fst (createLoan \<lparr>cl_kind = owed_to_you, cl_principal = 60000, cl_walletId = 1,
                cl_startDate = 0\<rparr> 7 demo) = Inl INSUFFICIENT_WALLET_BALANCE"
    by code_simp
  have e3: "fst (createLoanPayment \<lparr>cp_loanId = 5, cp_walletId = 1, cp_paymentDate = 0,
                cp_amount = 100\<rparr> 7 demo) = Inl LOAN_NOT_FOUND"
    by code_simp
  have e4: "fst (deleteLoan 5 7 0 demo) = Inl LOAN_NOT_FOUND"
    by code_simp
  note t = error_leaves_store_unchanged[where td = "ExpenseData 2 3 0 15000" and u = 7 and s = demo
      and ld = "\<lparr>cl_kind = owed_to_you, cl_principal = 60000, cl_walletId = 1, cl_startDate = 0\<rparr>"
      and pd = "\<lparr>cp_loanId = 5, cp_walletId = 1, cp_paymentDate = 0, cp_amount = 100\<rparr>"
      and l = 5 and now = 0]
  from t e1 e2 e3 e4 show ?thesis
    by (simp add: prod_eq_iff)
qed

section \<open>Loan statistics\<close>

lemma loans_partition_length:
  "length (filter (\<lambda>l. loan_kind l = you_owe \<and> loan_status l = LoanOpen) xs) +
   length (filter (\<lambda>l. loan_kind l = you_owe \<and> loan_status l = LoanClosed) xs) +
   length (filter (\<lambda>l. loan_kind l = owed_to_you \<and> loan_status l = LoanOpen) xs) +
   length (filter (\<lambda>l. loan_kind l = owed_to_you \<and> loan_status l = LoanClosed) xs) = length xs"
proof (induction xs)
  case Nil
  show ?case by simp
next
  case (Cons x xs)
  then show ?case
    by (cases "loan_kind x"; cases "loan_status x") simp_all
qed

text \<open>
  C10. In the result of \<open>getLoanStats\<close>, the count of each of the buckets \<open>youOwe\<close> and
  \<open>owedToYou\<close> is the number of the owner's loans of that kind that are not deleted and
  have status open, its total is the sum of the outstanding amounts of those loans, and
  \<open>totalLoans\<close> is the number of all the owner's loans that are not deleted, whatever their
  kind and status.
\<close>

theorem getLoanStats_buckets:
  "b_count (youOwe (getLoanStats u s)) =
     length (filter (\<lambda>l. loan_userId l = u \<and> loan_deletedAt l = None \<and>
                         loan_kind l = you_owe \<and> loan_status l = LoanOpen) (loans s)) \<and>
   b_totalAmount (youOwe (getLoanStats u s)) =
     sum_list (map outstandingAmount
       (filter (\<lambda>l. loan_userId l = u \<and> loan_deletedAt l = None \<and>
                    loan_kind l = you_owe \<and> loan_status l = LoanOpen) (loans s))) \<and>
   b_count (owedToYou (getLoanStats u s)) =
     length (filter (\<lambda>l. loan_userId l = u \<and> loan_deletedAt l = None \<and>
                         loan_kind l = owed_to_you \<and> loan_status l = LoanOpen) (loans s)) \<and>
   b_totalAmount (owedToYou (getLoanStats u s)) =
     sum_list (map outstandingAmount
       (filter (\<lambda>l. loan_userId l = u \<and> loan_deletedAt l = None \<and>
                    loan_kind l = owed_to_you \<and> loan_status l = LoanOpen) (loans s))) \<and>
   totalLoans (getLoanStats u s) =
     length (filter (\<lambda>l. loan_userId l = u \<and> loan_deletedAt l = None) (loans s))"
proof -
  define sel where "sel = filter (\<lambda>l. loan_userId l = u \<and> loan_deletedAt l = None) (loans s)"
  have f: "filter (\<lambda>l. loan_userId l = u \<and> loan_deletedAt l = None \<and>
                       loan_kind l = k \<and> loan_status l = st) (loans s)
        = filter (\<lambda>l. loan_kind l = k \<and> loan_status l = st) sel" for k st
    by (simp add: sel_def conj_ac)
  show ?thesis
    unfolding f using loans_partition_length[of sel]
    unfolding getLoanStats_def loan_groupBy_def sel_def[symmetric] Let_def
    by auto
qed

section \<open>Loan service: disbursement\<close>

lemma createLoan_body_eq:
  "ownedWallet s (cl_walletId d) u = Some w \<Longrightarrow>
   createLoan_body d u s =
     (let l = \<lparr>loan_id = nextId s, loan_userId = u, loan_kind = cl_kind d,
                principal = cl_principal d, outstandingAmount = cl_principal d,
                startDate = cl_startDate d, loan_status = LoanOpen, loan_deletedAt = None\<rparr>;
          t = \<lparr>transaction_id = nextId s + 1, transaction_userId = u,
                transaction_type = (if cl_kind d = you_owe then income else expense),
                transactionDate = cl_startDate d,
                transaction_categoryId =
                  defaultCategory u (if cl_kind d = you_owe then CatIncome else CatExpense)
                    (if cl_kind d = you_owe then name_borrow else name_lend) s,
                transaction_amount = cl_principal d, transaction_deletedAt = None,
                transaction_loanId = Some (nextId s)\<rparr>;
          e = \<lparr>entry_id = nextId s + 2, entry_transactionId = nextId s + 1,
                entry_walletId = cl_walletId d,
                entry_direction = (if cl_kind d = you_owe then DirIn else DirOut),
                entry_amount = cl_principal d\<rparr>
      in Inr (l, s\<lparr>loans := loans s @ [l], transactions := transactions s @ [t],
                    entries := entries s @ [e], nextId := nextId s + 3,
                    wallets := updateBalance (cl_walletId d)
                      (if cl_kind d = you_owe then increment (cl_principal d)
                       else decrement (cl_principal d)) (wallets s)\<rparr>))"
  by (frule ownedWallet_exists)
     (auto simp: createLoan_body_def transaction_create_def mk_entries_def wallet_update_def
        defaultCategory_def Let_def)

lemma createLoan_cases:
  "createLoan d u s =
     (case ownedWallet s (cl_walletId d) u of
        None \<Rightarrow> (Inl WALLET_NOT_FOUND, s)
      | Some w \<Rightarrow>
          if cl_kind d = owed_to_you \<and> currentBalance w < cl_principal d
          then (Inl INSUFFICIENT_WALLET_BALANCE, s)
          else prisma_transaction (createLoan_body d u) s)"
  by (auto simp: createLoan_def loan_validateWalletOwnership_def ownedWallet_def
      split: option.splits)

lemma createLoan_success:
  assumes "createLoan d u s = (Inr l, s')"
  shows "\<exists>w. ownedWallet s (cl_walletId d) u = Some w \<and>
           (cl_kind d = owed_to_you \<longrightarrow> cl_principal d \<le> currentBalance w) \<and>
           createLoan_body d u s = Inr (l, s')"
  using assms
  by (auto simp: createLoan_cases prisma_transaction_def split: option.splits if_splits sum.splits)



section \<open>Loan service: repayment\<close>

lemma find_loan_by_id:
  "(\<exists>l \<in> set ls. loan_id l = i) \<Longrightarrow> \<exists>l. find (\<lambda>l. loan_id l = i) ls = Some l"
  by (cases "find (\<lambda>l. loan_id l = i) ls") (auto simp: find_None_iff)

lemma ownedLoan_exists:
  "ownedLoan s i u = Some l \<Longrightarrow>
   l \<in> set (loans s) \<and> loan_id l = i \<and> loan_userId l = u \<and> loan_deletedAt l = None"
  by (auto simp: ownedLoan_def find_Some_iff)

lemma createLoanPayment_body_eq:
  assumes "ownedWallet s (cp_walletId d) u = Some w" and "ownedLoan s (cp_loanId d) u = Some l0"
  shows "createLoanPayment_body l d u s =
     (let t = \<lparr>transaction_id = nextId s, transaction_userId = u,
                transaction_type = (if loan_kind l = you_owe then expense else income),
                transactionDate = cp_paymentDate d,
                transaction_categoryId =
                  defaultCategory u (if loan_kind l = you_owe then CatExpense else CatIncome)
                    (if loan_kind l = you_owe then name_repay else name_collect) s,
                transaction_amount = cp_amount d, transaction_deletedAt = None,
                transaction_loanId = None\<rparr>;
          e = \<lparr>entry_id = nextId s + 1, entry_transactionId = nextId s,
                entry_walletId = cp_walletId d,
                entry_direction = (if loan_kind l = you_owe then DirOut else DirIn),
                entry_amount = cp_amount d\<rparr>;
          p = \<lparr>payment_id = nextId s + 2, payment_loanId = cp_loanId d, payment_userId = u,
                payment_walletId = cp_walletId d, payment_transactionId = nextId s,
                paymentDate = cp_paymentDate d, payment_amount = cp_amount d\<rparr>
      in Inr (p, s\<lparr>transactions := transactions s @ [t], entries := entries s @ [e],
                    loanPayments := loanPayments s @ [p], nextId := nextId s + 3,
                    wallets := updateBalance (cp_walletId d)
                      (if loan_kind l = you_owe then decrement (cp_amount d)
                       else increment (cp_amount d)) (wallets s),
                    loans := map (\<lambda>r. if loan_id r = cp_loanId d
                                       then r\<lparr>outstandingAmount :=
                                                max 0 (outstandingAmount l - cp_amount d),
                                              loan_status :=
                                                (if outstandingAmount l - cp_amount d \<le> 0
                                                 then LoanClosed else LoanOpen)\<rparr>
                                       else r) (loans s)\<rparr>))"
proof -
  from ownedWallet_exists[OF assms(1)] have ex: "\<exists>w \<in> set (wallets s). wallet_id w = cp_walletId d" .
  from ownedLoan_exists[OF assms(2)] have "\<exists>l \<in> set (loans s). loan_id l = cp_loanId d" by blast
  from find_loan_by_id[OF this] obtain l1 where
    l1: "find (\<lambda>l. loan_id l = cp_loanId d) (loans s) = Some l1" ..
  show ?thesis
    using ex l1
    by (auto simp: createLoanPayment_body_def transaction_create_def mk_entries_def
        wallet_update_def loan_update_def defaultCategory_def Let_def)
qed

lemma createLoanPayment_cases:
  "createLoanPayment d u s =
     (case ownedLoan s (cp_loanId d) u of
        None \<Rightarrow> (Inl LOAN_NOT_FOUND, s)
      | Some l \<Rightarrow>
          if loan_status l = LoanClosed then (Inl LOAN_ALREADY_CLOSED, s)
          else if cp_amount d > outstandingAmount l then (Inl PAYMENT_EXCEEDS_OUTSTANDING, s)
          else (case ownedWallet s (cp_walletId d) u of
                  None \<Rightarrow> (Inl WALLET_NOT_FOUND, s)
                | Some w \<Rightarrow>
                    if loan_kind l = you_owe \<and> currentBalance w < cp_amount d
                    then (Inl INSUFFICIENT_WALLET_BALANCE, s)
                    else prisma_transaction (createLoanPayment_body l d u) s))"
  by (auto simp: createLoanPayment_def validateLoanOwnership_def
      loan_validateWalletOwnership_def ownedWallet_def ownedLoan_def
      split: option.splits)

lemma createLoanPayment_success:
  assumes "createLoanPayment d u s = (Inr p, s')"
  shows "\<exists>l w. ownedLoan s (cp_loanId d) u = Some l \<and> loan_status l = LoanOpen \<and>
           cp_amount d \<le> outstandingAmount l \<and>
           ownedWallet s (cp_walletId d) u = Some w \<and>
           (loan_kind l = you_owe \<longrightarrow> cp_amount d \<le> currentBalance w) \<and>
           createLoanPayment_body l d u s = Inr (p, s')"
proof -
  from assms obtain l where l: "ownedLoan s (cp_loanId d) u = Some l"
    by (auto simp: createLoanPayment_cases split: option.splits)
  from assms l have st: "loan_status l = LoanOpen" and am: "cp_amount d \<le> outstandingAmount l"
    by (cases "loan_status l"; auto simp: createLoanPayment_cases split: if_splits)+
  from assms l st am obtain w where w: "ownedWallet s (cp_walletId d) u = Some w"
    by (auto simp: createLoanPayment_cases split: option.splits if_splits)
  from assms l st am w have "loan_kind l = you_owe \<longrightarrow> cp_amount d \<le> currentBalance w"
    and "createLoanPayment_body l d u s = Inr (p, s')"
    by (auto simp: createLoanPayment_cases prisma_transaction_def split: if_splits sum.splits)
  with l st am w show ?thesis by blast
qed

lemma ownedLoan_None_iff:
  "ownedLoan s i u = None \<longleftrightarrow>
   (\<forall>l \<in> set (loans s). loan_id l = i \<longrightarrow> loan_userId l \<noteq> u \<or> loan_deletedAt l \<noteq> None)"
  by (auto simp: ownedLoan_def find_None_iff)

text \<open>
  The guards of \<open>createLoanPayment\<close> on amounts that are whole hundredths. It fails with
  \<open>LOAN_NOT_FOUND\<close> when every loan with the given identifier belongs to someone else or is
  soft-deleted (in particular when there is none), and with \<open>LOAN_ALREADY_CLOSED\<close> when the
  caller's loan is closed. When the amount and the outstanding amount are \<open>comparable\<close>, it
  fails with \<open>PAYMENT_EXCEEDS_OUTSTANDING\<close> when the caller's loan is open and the amount
  is greater than its outstanding amount, and a successful call is for at most the
  outstanding amount. A successful call is always on an open loan of the caller and
  records exactly one payment, of that amount on that loan; a failed call records none.
  Beyond \<open>comparable\<close> amounts the third guard can miss, as the last section shows.
\<close>

theorem createLoanPayment_guards:
  "((\<forall>l \<in> set (loans s). loan_id l = cp_loanId d \<longrightarrow>
        loan_userId l \<noteq> u \<or> loan_deletedAt l \<noteq> None) \<longrightarrow>
      createLoanPayment d u s = (Inl LOAN_NOT_FOUND, s)) \<and>
   (ownedLoan s (cp_loanId d) u = Some l \<and> loan_status l = LoanClosed \<longrightarrow>
      createLoanPayment d u s = (Inl LOAN_ALREADY_CLOSED, s)) \<and>
   (ownedLoan s (cp_loanId d) u = Some l \<and> loan_status l = LoanOpen \<and>
    comparable (cp_amount d) \<and> comparable (outstandingAmount l) \<and>
    cp_amount d > outstandingAmount l \<longrightarrow>
      createLoanPayment d u s = (Inl PAYMENT_EXCEEDS_OUTSTANDING, s)) \<and>
   (createLoanPayment d u s = (Inr p, s') \<longrightarrow>
      (\<exists>l. ownedLoan s (cp_loanId d) u = Some l \<and> loan_status l = LoanOpen \<and>
           (comparable (cp_amount d) \<and> comparable (outstandingAmount l) \<longrightarrow>
              cp_amount d \<le> outstandingAmount l)) \<and>
      loanPayments s' = loanPayments s @ [p] \<and>
      payment_loanId p = cp_loanId d \<and> payment_amount p = cp_amount d) \<and>
   (isl (fst (createLoanPayment d u s)) \<longrightarrow>
      loanPayments (snd (createLoanPayment d u s)) = loanPayments s)"
proof (intro conjI impI)
  assume "\<forall>l \<in> set (loans s). loan_id l = cp_loanId d \<longrightarrow>
        loan_userId l \<noteq> u \<or> loan_deletedAt l \<noteq> None"
  then have "ownedLoan s (cp_loanId d) u = None" by (simp add: ownedLoan_None_iff)
  then show "createLoanPayment d u s = (Inl LOAN_NOT_FOUND, s)"
    by (simp add: createLoanPayment_cases)
next
  assume "ownedLoan s (cp_loanId d) u = Some l \<and> loan_status l = LoanClosed"
  then show "createLoanPayment d u s = (Inl LOAN_ALREADY_CLOSED, s)"
    by (simp add: createLoanPayment_cases)
next
  assume "ownedLoan s (cp_loanId d) u = Some l \<and> loan_status l = LoanOpen \<and>
    comparable (cp_amount d) \<and> comparable (outstandingAmount l) \<and>
    cp_amount d > outstandingAmount l"
  then show "createLoanPayment d u s = (Inl PAYMENT_EXCEEDS_OUTSTANDING, s)"
    by (simp add: createLoanPayment_cases)
next
  assume ok: "createLoanPayment d u s = (Inr p, s')"
  from createLoanPayment_success[OF ok] obtain l0 w where
    l0: "ownedLoan s (cp_loanId d) u = Some l0" "loan_status l0 = LoanOpen"
        "cp_amount d \<le> outstandingAmount l0" and
    w: "ownedWallet s (cp_walletId d) u = Some w" and
    body: "createLoanPayment_body l0 d u s = Inr (p, s')" by blast
  note eq = body[unfolded createLoanPayment_body_eq[OF w l0(1)] Let_def, simplified]
  show "\<exists>l. ownedLoan s (cp_loanId d) u = Some l \<and> loan_status l = LoanOpen \<and>
           (comparable (cp_amount d) \<and> comparable (outstandingAmount l) \<longrightarrow>
              cp_amount d \<le> outstandingAmount l)"
    using l0 by blast
  show "loanPayments s' = loanPayments s @ [p]" using eq by auto
  show "payment_loanId p = cp_loanId d" using eq by auto
  show "payment_amount p = cp_amount d" using eq by auto
next
  assume "isl (fst (createLoanPayment d u s))"
  then show "loanPayments (snd (createLoanPayment d u s)) = loanPayments s"
    by (simp add: createLoanPayment_error)
qed

theorem createLoanPayment_guards_witness:
  "createLoanPayment \<lparr>cp_loanId = 10, cp_walletId = 1, cp_paymentDate = 1, cp_amount = 100\<rparr> 7 demo
     = (Inl LOAN_NOT_FOUND, demo) \<and>
   createLoanPayment \<lparr>cp_loanId = 10, cp_walletId = 1, cp_paymentDate = 2, cp_amount = 100\<rparr> 7
     demo_paid = (Inl LOAN_ALREADY_CLOSED, demo_paid) \<and>
   createLoanPayment \<lparr>cp_loanId = 10, cp_walletId = 1, cp_paymentDate = 1, cp_amount = 60000\<rparr> 7
     demo_loan = (Inl PAYMENT_EXCEEDS_OUTSTANDING, demo_loan) \<and>
   fst (createLoanPayment \<lparr>cp_loanId = 10, cp_walletId = 1, cp_paymentDate = 1,
                            cp_amount = 50000\<rparr> 7 demo_loan)
     = Inr \<lparr>payment_id = 15, payment_loanId = 10, payment_userId = 7, payment_walletId = 1,
            payment_transactionId = 13, paymentDate = 1, payment_amount = 50000\<rparr> \<and>
   map payment_amount (loanPayments demo_paid) = [50000] \<and>
   loanPayments (snd (createLoanPayment \<lparr>cp_loanId = 10, cp_walletId = 1, cp_paymentDate = 1,
                                         cp_amount = 60000\<rparr> 7 demo_loan)) = []"
proof -
  let ?l = "\<lparr>loan_id = 10, loan_userId = 7, loan_kind = you_owe, principal = 50000,
             outstandingAmount = 50000, startDate = 0, loan_status = LoanOpen,
             loan_deletedAt = None\<rparr>"
  let ?lc = "?l\<lparr>outstandingAmount := 0, loan_status := LoanClosed\<rparr>"
  let ?p = "\<lparr>payment_id = 15, payment_loanId = 10, payment_userId = 7, payment_walletId = 1,
             payment_transactionId = 13, paymentDate = 1, payment_amount = 50000\<rparr>"
  let ?d = "\<lambda>a. \<lparr>cp_loanId = 10, cp_walletId = 1, cp_paymentDate = 1, cp_amount = a\<rparr>"
  let ?d2 = "\<lparr>cp_loanId = 10, cp_walletId = 1, cp_paymentDate = 2, cp_amount = 100\<rparr>"
  have h1: "\<forall>l \<in> set (loans demo). loan_id l = cp_loanId (?d 100) \<longrightarrow>
        loan_userId l \<noteq> 7 \<or> loan_deletedAt l \<noteq> None" by code_simp
  have h2: "ownedLoan demo_paid (cp_loanId ?d2) 7 = Some ?lc \<and> loan_status ?lc = LoanClosed"
    by code_simp
  have h3: "ownedLoan demo_loan (cp_loanId (?d 60000)) 7 = Some ?l \<and> loan_status ?l = LoanOpen \<and>
    comparable (cp_amount (?d 60000)) \<and> comparable (outstandingAmount ?l) \<and>
    cp_amount (?d 60000) > outstandingAmount ?l" by code_simp
  have h4: "createLoanPayment (?d 50000) 7 demo_loan = (Inr ?p, demo_paid)"
    unfolding demo_paid_def by code_simp
  have h5: "loanPayments demo_loan = []" by code_simp
  note t1 = createLoanPayment_guards[where d = "?d 100" and u = 7 and s = demo]
  note t2 = createLoanPayment_guards[where d = ?d2 and u = 7 and s = demo_paid and l = ?lc]
  note t3 = createLoanPayment_guards[where d = "?d 60000" and u = 7 and s = demo_loan and l = ?l]
  note t4 = createLoanPayment_guards[where d = "?d 50000" and u = 7 and s = demo_loan
      and p = ?p and s' = demo_paid]
  from t1 h1 have c1: "createLoanPayment (?d 100) 7 demo = (Inl LOAN_NOT_FOUND, demo)" by blast
  from t2 h2 have c2: "createLoanPayment ?d2 7 demo_paid = (Inl LOAN_ALREADY_CLOSED, demo_paid)"
    by blast
  from t3 h3 have c3: "createLoanPayment (?d 60000) 7 demo_loan
      = (Inl PAYMENT_EXCEEDS_OUTSTANDING, demo_loan)" by blast
  from t4 h4 have "loanPayments demo_paid = loanPayments demo_loan @ [?p]" by blast
  with h5 have c4: "map payment_amount (loanPayments demo_paid) = [50000]" by simp
  from c3 have "isl (fst (createLoanPayment (?d 60000) 7 demo_loan))" by simp
  with t3 h5 have c5: "loanPayments (snd (createLoanPayment (?d 60000) 7 demo_loan)) = []"
    by simp
  from c1 c2 c3 h4 c4 c5 show ?thesis by simp
qed

section \<open>Transaction service: income and expense\<close>

lemma createIncomeTransaction_success:
  assumes "createIncomeTransaction w c dt a u s = (Inr r, s')"
  shows "(\<exists>x. ownedWallet s w u = Some x) \<and>
         r = (\<lparr>transaction_id = nextId s, transaction_userId = u, transaction_type = income,
               transactionDate = dt, transaction_categoryId = Some c, transaction_amount = a,
               transaction_deletedAt = None, transaction_loanId = None\<rparr>,
              [\<lparr>entry_id = nextId s + 1, entry_transactionId = nextId s, entry_walletId = w,
                entry_direction = DirIn, entry_amount = a\<rparr>]) \<and>
         s' = s\<lparr>transactions := transactions s @ [fst r], entries := entries s @ snd r,
                 nextId := nextId s + 2,
                 wallets := updateBalance w (increment a) (wallets s)\<rparr>"
  using assms
  unfolding createIncomeTransaction_def txn_validateWalletOwnership_def
    ownedWallet_def[symmetric]
  by (auto simp: prisma_transaction_def transaction_create_def
      mk_entries_def wallet_update_def Let_def
      split: option.splits if_splits sum.splits)

lemma createExpenseTransaction_success:
  assumes "createExpenseTransaction w c dt a u s = (Inr r, s')"
  shows "(\<exists>x. ownedWallet s w u = Some x \<and> a \<le> currentBalance x) \<and>
         r = (\<lparr>transaction_id = nextId s, transaction_userId = u, transaction_type = expense,
               transactionDate = dt, transaction_categoryId = Some c, transaction_amount = a,
               transaction_deletedAt = None, transaction_loanId = None\<rparr>,
              [\<lparr>entry_id = nextId s + 1, entry_transactionId = nextId s, entry_walletId = w,
                entry_direction = DirOut, entry_amount = a\<rparr>]) \<and>
         s' = s\<lparr>transactions := transactions s @ [fst r], entries := entries s @ snd r,
                 nextId := nextId s + 2,
                 wallets := updateBalance w (decrement a) (wallets s)\<rparr>"
  using assms
  unfolding createExpenseTransaction_def txn_validateWalletOwnership_def
    ownedWallet_def[symmetric]
  by (auto simp: prisma_transaction_def recheckBalance_def transaction_create_def
      mk_entries_def wallet_update_def Let_def
      split: option.splits if_splits sum.splits)

lemma validateCategoryOwnership_not_balance:
  "validateCategoryOwnership c u ty s \<noteq> Inl INSUFFICIENT_WALLET_BALANCE"
  by (auto simp: validateCategoryOwnership_def split: option.splits)

lemma recheckBalance_owned:
  "distinct (map wallet_id (wallets s)) \<Longrightarrow> ownedWallet s w u = Some x \<Longrightarrow>
   recheckBalance w a s = (if currentBalance x < a then Inl INSUFFICIENT_WALLET_BALANCE else Inr ())"
  by (drule (1) ownedWallet_balanceOf) (simp add: recheckBalance_def)

lemma expense_insufficient_iff:
  assumes "distinct (map wallet_id (wallets s))" and "ownedWallet s w u = Some x"
  shows "fst (createExpenseTransaction w c dt a u s) = Inl INSUFFICIENT_WALLET_BALANCE
         \<longleftrightarrow> currentBalance x < a"
proof (cases "currentBalance x < a")
  case True
  with assms(2) show ?thesis
    by (simp add: createExpenseTransaction_def txn_validateWalletOwnership_def
        ownedWallet_def[symmetric])
next
  case False
  from ownedWallet_exists[OF assms(2)] have ex: "\<exists>w' \<in> set (wallets s). wallet_id w' = w" .
  have "fst (createExpenseTransaction w c dt a u s) \<noteq> Inl INSUFFICIENT_WALLET_BALANCE"
    using False assms(2) ex validateCategoryOwnership_not_balance[of c u expense s]
    by (auto simp: createExpenseTransaction_def txn_validateWalletOwnership_def
        ownedWallet_def[symmetric] prisma_transaction_def recheckBalance_owned[OF assms]
        transaction_create_def wallet_update_def Let_def
        split: sum.splits)
  with False show ?thesis by simp
qed

lemma transfer_insufficient_iff:
  assumes "distinct (map wallet_id (wallets s))" and "ownedWallet s f u = Some x" and "f \<noteq> t"
  shows "fst (createTransferTransaction f t dt a u s) = Inl INSUFFICIENT_WALLET_BALANCE
         \<longleftrightarrow> currentBalance x < a"
proof (cases "currentBalance x < a")
  case True
  with assms(2,3) show ?thesis
    by (simp add: createTransferTransaction_def txn_validateWalletOwnership_def
        ownedWallet_def[symmetric])
next
  case False
  from ownedWallet_exists[OF assms(2)] have ex: "\<exists>w' \<in> set (wallets s). wallet_id w' = f" .
  have "fst (createTransferTransaction f t dt a u s) \<noteq> Inl INSUFFICIENT_WALLET_BALANCE"
  proof (cases "ownedWallet s t u")
    case None
    with False assms(2,3) show ?thesis
      by (simp add: createTransferTransaction_def txn_validateWalletOwnership_def
        ownedWallet_def[symmetric])
  next
    case (Some y)
    from ownedWallet_exists[OF Some] have ey: "\<exists>w' \<in> set (wallets s). wallet_id w' = t" .
    show ?thesis
      using False assms(2,3) Some ex ey
      by (auto simp: createTransferTransaction_def txn_validateWalletOwnership_def
        ownedWallet_def[symmetric] prisma_transaction_def recheckBalance_owned[OF assms(1,2)]
        transaction_create_def wallet_update_def set_updateBalance_ids Let_def
        split: sum.splits)
  qed
  with False show ?thesis by simp
qed

lemma transfer_succeeds:
  assumes "distinct (map wallet_id (wallets s))" and "ownedWallet s f u = Some x" and "f \<noteq> t"
    and "a \<le> currentBalance x" and "ownedWallet s t u = Some y"
  shows "\<exists>r. fst (createTransferTransaction f t dt a u s) = Inr r"
proof -
  from ownedWallet_exists[OF assms(2)] have ex: "\<exists>w' \<in> set (wallets s). wallet_id w' = f" .
  from ownedWallet_exists[OF assms(5)] have ey: "\<exists>w' \<in> set (wallets s). wallet_id w' = t" .
  show ?thesis
    using assms(2-5) ex ey
    by (auto simp: createTransferTransaction_def txn_validateWalletOwnership_def
        ownedWallet_def[symmetric] prisma_transaction_def recheckBalance_owned[OF assms(1,2)]
        transaction_create_def wallet_update_def set_updateBalance_ids Let_def
        split: sum.splits)
qed

lemma income_never_insufficient:
  "fst (createIncomeTransaction w c dt a u s) \<noteq> Inl INSUFFICIENT_WALLET_BALANCE"
  using validateCategoryOwnership_not_balance[of c u income s]
  by (auto simp: createIncomeTransaction_def txn_validateWalletOwnership_def
      prisma_transaction_def transaction_create_def wallet_update_def Let_def
      split: sum.splits option.splits)

text \<open>
  C2, as stated, fails: a transfer from a wallet to itself is refused with
  \<open>SAME_WALLET_TRANSFER\<close> before any balance is read, also when the balance of that wallet
  is below the amount.
\<close>

theorem insufficient_balance_counterexample:
  "balanceOf demo 2 = Some 10000 \<and>
   fst (createTransaction (TransferData 2 2 0 15000) 7 demo) = Inl SAME_WALLET_TRANSFER \<and>
   \<not> (fst (createTransaction (TransferData 2 2 0 15000) 7 demo) = Inl INSUFFICIENT_WALLET_BALANCE
        \<longleftrightarrow> (10000::int) < 15000)"
  by code_simp

text \<open>
  C2, amended. Let the wallet identifiers of the store be pairwise distinct (they are the
  primary key), and let the amount and the balances involved be \<open>comparable\<close>. For an
  expense on a wallet the caller may post to, and for a transfer from such a wallet to a
  different wallet, \<open>createTransaction\<close> fails with \<open>INSUFFICIENT_WALLET_BALANCE\<close> if and
  only if the balance of that source wallet is less than the amount. A transfer from a
  wallet to itself fails with \<open>SAME_WALLET_TRANSFER\<close>, whatever the balance. An income
  never fails with \<open>INSUFFICIENT_WALLET_BALANCE\<close>, and a transfer whose source has enough
  balance succeeds whatever the balance of the destination wallet is.
\<close>

theorem insufficient_balance_iff:
  assumes "distinct (map wallet_id (wallets s))"
  shows
  "(ownedWallet s w u = Some x \<and> comparable (currentBalance x) \<and> comparable a \<longrightarrow>
      (fst (createTransaction (ExpenseData w c dt a) u s) = Inl INSUFFICIENT_WALLET_BALANCE
       \<longleftrightarrow> currentBalance x < a)) \<and>
   (ownedWallet s f u = Some x \<and> f \<noteq> t \<and> comparable (currentBalance x) \<and> comparable a \<longrightarrow>
      (fst (createTransaction (TransferData f t dt a) u s) = Inl INSUFFICIENT_WALLET_BALANCE
       \<longleftrightarrow> currentBalance x < a)) \<and>
   createTransaction (TransferData w w dt a) u s = (Inl SAME_WALLET_TRANSFER, s) \<and>
   fst (createTransaction (IncomeData w c dt a) u s) \<noteq> Inl INSUFFICIENT_WALLET_BALANCE \<and>
   (ownedWallet s f u = Some x \<and> f \<noteq> t \<and> a \<le> currentBalance x \<and>
    ownedWallet s t u = Some y \<and>
    comparable (currentBalance x) \<and> comparable a \<and> comparable (currentBalance y) \<longrightarrow>
      (\<exists>r. fst (createTransaction (TransferData f t dt a) u s) = Inr r))"
proof (intro conjI impI)
  assume "ownedWallet s w u = Some x \<and> comparable (currentBalance x) \<and> comparable a"
  then show "fst (createTransaction (ExpenseData w c dt a) u s) = Inl INSUFFICIENT_WALLET_BALANCE
       \<longleftrightarrow> currentBalance x < a"
    using expense_insufficient_iff[OF assms, of w u x c dt a] by simp
next
  assume "ownedWallet s f u = Some x \<and> f \<noteq> t \<and> comparable (currentBalance x) \<and> comparable a"
  then show "fst (createTransaction (TransferData f t dt a) u s) = Inl INSUFFICIENT_WALLET_BALANCE
       \<longleftrightarrow> currentBalance x < a"
    using transfer_insufficient_iff[OF assms, of f u x t dt a] by simp
next
  show "createTransaction (TransferData w w dt a) u s = (Inl SAME_WALLET_TRANSFER, s)"
    by (simp add: createTransferTransaction_def)
next
  show "fst (createTransaction (IncomeData w c dt a) u s) \<noteq> Inl INSUFFICIENT_WALLET_BALANCE"
    using income_never_insufficient[of w c dt a u s] by simp
next
  assume "ownedWallet s f u = Some x \<and> f \<noteq> t \<and> a \<le> currentBalance x \<and>
    ownedWallet s t u = Some y \<and>
    comparable (currentBalance x) \<and> comparable a \<and> comparable (currentBalance y)"
  then show "\<exists>r. fst (createTransaction (TransferData f t dt a) u s) = Inr r"
    using transfer_succeeds[OF assms, of f u x t a y dt] by simp
qed

theorem insufficient_balance_iff_witness:
  "distinct (map wallet_id (wallets demo)) \<and>
   comparable 10000 \<and> comparable 15000 \<and> comparable 20000 \<and> comparable 50000 \<and>
   fst (createTransaction (ExpenseData 2 3 0 15000) 7 demo) = Inl INSUFFICIENT_WALLET_BALANCE \<and>
   fst (createTransaction (ExpenseData 2 3 0 10000) 7 demo) \<noteq> Inl INSUFFICIENT_WALLET_BALANCE \<and>
   fst (createTransaction (TransferData 2 1 0 15000) 7 demo) = Inl INSUFFICIENT_WALLET_BALANCE \<and>
   createTransaction (TransferData 2 2 0 15000) 7 demo = (Inl SAME_WALLET_TRANSFER, demo) \<and>
   fst (createTransaction (IncomeData 2 4 0 15000) 7 demo) \<noteq> Inl INSUFFICIENT_WALLET_BALANCE \<and>
   (\<exists>r. fst (createTransaction (TransferData 1 2 0 20000) 7 demo) = Inr r)"
proof -
  let ?w1 = "\<lparr>wallet_id = 1, wallet_userId = 7, openingBalance = 50000,
              currentBalance = 50000, isArchived = False\<rparr>"
  let ?w2 = "\<lparr>wallet_id = 2, wallet_userId = 7, openingBalance = 10000,
              currentBalance = 10000, isArchived = False\<rparr>"
  have d: "distinct (map wallet_id (wallets demo))" by code_simp
  have o1: "ownedWallet demo 1 7 = Some ?w1" by code_simp
  have o2: "ownedWallet demo 2 7 = Some ?w2" by code_simp
  have r: "comparable 10000 \<and> comparable 15000 \<and> comparable 20000 \<and> comparable 50000"
    by (simp add: comparable_def)
  note a = insufficient_balance_iff[OF d, where w = 2 and u = 7 and x = ?w2 and c = 3 and dt = 0
      and a = 15000 and f = 2 and t = 1]
  note b = insufficient_balance_iff[OF d, where w = 2 and u = 7 and x = ?w2 and c = 3 and dt = 0
      and a = 10000 and f = 2 and t = 1]
  note c = insufficient_balance_iff[OF d, where w = 2 and u = 7 and x = ?w1 and c = 4 and dt = 0
      and a = 15000 and f = 1 and t = 2 and y = ?w2]
  note e = insufficient_balance_iff[OF d, where w = 2 and u = 7 and x = ?w1 and c = 4 and dt = 0
      and a = 20000 and f = 1 and t = 2 and y = ?w2]
  from a o2 r have c1: "fst (createTransaction (ExpenseData 2 3 0 15000) 7 demo)
      = Inl INSUFFICIENT_WALLET_BALANCE" by simp
  from b o2 r have c2: "fst (createTransaction (ExpenseData 2 3 0 10000) 7 demo)
      \<noteq> Inl INSUFFICIENT_WALLET_BALANCE" by simp
  from a o2 r have c3: "fst (createTransaction (TransferData 2 1 0 15000) 7 demo)
      = Inl INSUFFICIENT_WALLET_BALANCE" by simp
  from a have c6: "createTransaction (TransferData 2 2 0 15000) 7 demo
      = (Inl SAME_WALLET_TRANSFER, demo)" by blast
  from c have c4: "fst (createTransaction (IncomeData 2 4 0 15000) 7 demo)
      \<noteq> Inl INSUFFICIENT_WALLET_BALANCE" by blast
  from e o1 o2 r have c5: "\<exists>r. fst (createTransaction (TransferData 1 2 0 20000) 7 demo) = Inr r"
    by simp
  from d r c1 c2 c3 c4 c5 c6 show ?thesis by blast
qed

section \<open>Loan service: deletion\<close>

lemma reverseDisbursement_cases:
  "reverseDisbursement l u now s =
     (case originatingEntry s l u of
        None \<Rightarrow> Inr s
      | Some (bt, e) \<Rightarrow>
          if \<exists>w \<in> set (wallets s). wallet_id w = entry_walletId e
          then Inr (s\<lparr>wallets := updateBalance (entry_walletId e)
                                   (if loan_kind l = you_owe then decrement (principal l)
                                    else increment (principal l)) (wallets s),
                       transactions := softDeleteTransaction (transaction_id bt) now
                                         (transactions s)\<rparr>)
          else Inl RECORD_NOT_FOUND)"
proof (cases "find (\<lambda>t. transaction_userId t = u \<and> transaction_deletedAt t = None \<and>
                     transaction_loanId t = Some (loan_id l)) (transactions s)")
  case None
  then show ?thesis by (simp add: reverseDisbursement_def originatingEntry_def)
next
  case (Some bt)
  then have ex: "\<exists>t \<in> set (transactions s). transaction_id t = transaction_id bt"
    by (auto simp: find_Some_iff)
  show ?thesis
    using Some ex
    by (auto simp: reverseDisbursement_def originatingEntry_def wallet_update_def
        transaction_softDelete_def softDeleteTransaction_def
        split: list.splits)
qed

lemma deleteLoan_cases:
  "deleteLoan i u now s =
     (case ownedLoan s i u of
        None \<Rightarrow> (Inl LOAN_NOT_FOUND, s)
      | Some l \<Rightarrow>
          if \<exists>p \<in> set (loanPayments s). payment_loanId p = i
          then (Inl LOAN_HAS_PAYMENTS, s)
          else (case reverseDisbursement l u now s of
                  Inl e \<Rightarrow> (Inl e, s)
                | Inr s1 \<Rightarrow>
                    (Inr ((the (find (\<lambda>l. loan_id l = i) (loans s1)))\<lparr>loan_deletedAt := Some now\<rparr>),
                     s1\<lparr>loans := softDeleteLoan i now (loans s1)\<rparr>)))"
proof (cases "ownedLoan s i u")
  case None
  then show ?thesis
    by (simp add: deleteLoan_def deleteLoan_body_def prisma_transaction_def ownedLoan_def)
next
  case (Some l)
  note l = ownedLoan_exists[OF Some]
  have loans_kept: "loans s1 = loans s" if "reverseDisbursement l u now s = Inr s1" for s1
    using that by (auto simp: reverseDisbursement_cases split: option.splits if_splits)
  have "\<exists>l1. find (\<lambda>l. loan_id l = i) (loans s) = Some l1"
    using l by (intro find_loan_by_id) blast
  then obtain l1 where l1: "find (\<lambda>l. loan_id l = i) (loans s) = Some l1" ..
  show ?thesis
  proof (cases "\<exists>p \<in> set (loanPayments s). payment_loanId p = i")
    case True
    then have "filter (\<lambda>p. payment_loanId p = loan_id l) (loanPayments s) \<noteq> []"
      using l by (auto simp: filter_empty_conv)
    with True Some show ?thesis
      by (simp add: deleteLoan_def deleteLoan_body_def prisma_transaction_def ownedLoan_def)
  next
    case False
    then have emp: "filter (\<lambda>p. payment_loanId p = loan_id l) (loanPayments s) = []"
      using l by (auto simp: filter_empty_conv)
    show ?thesis
    proof (cases "reverseDisbursement l u now s")
      case (Inl e)
      with False Some emp show ?thesis
        by (simp add: deleteLoan_def deleteLoan_body_def prisma_transaction_def ownedLoan_def)
    next
      case (Inr s1)
      with False Some emp l1 loans_kept[OF Inr] show ?thesis
        by (simp add: deleteLoan_def deleteLoan_body_def prisma_transaction_def ownedLoan_def
            loan_update_def softDeleteLoan_def)
    qed
  qed
qed

section \<open>Ledger sums\<close>

lemma tx_live_append:
  "tx_live (ts @ [t]) i \<longleftrightarrow>
   tx_live ts i \<or> (transaction_id t = i \<and> transaction_deletedAt t = None)"
  by (auto simp: tx_live_def)

lemma ledgerSum_post:
  assumes "\<forall>e \<in> set es. entry_transactionId e \<noteq> transaction_id t"
    and "transaction_deletedAt t = None"
    and "\<forall>e \<in> set new. entry_transactionId e = transaction_id t"
  shows "ledgerSum (ts @ [t]) (es @ new) w =
         ledgerSum ts es w + sum_list (map signed (filter (\<lambda>e. entry_walletId e = w) new))"
proof -
  have old: "filter (\<lambda>e. entry_walletId e = w \<and> tx_live (ts @ [t]) (entry_transactionId e)) es
      = filter (\<lambda>e. entry_walletId e = w \<and> tx_live ts (entry_transactionId e)) es"
    using assms(1) by (intro filter_cong) (auto simp: tx_live_append)
  have new: "filter (\<lambda>e. entry_walletId e = w \<and> tx_live (ts @ [t]) (entry_transactionId e)) new
      = filter (\<lambda>e. entry_walletId e = w) new"
    using assms(2,3) by (intro filter_cong) (auto simp: tx_live_append)
  show ?thesis by (simp add: ledgerSum_def old new)
qed

lemma tx_live_softDelete:
  "tx_live (softDeleteTransaction n now ts) i \<longleftrightarrow> i \<noteq> n \<and> tx_live ts i"
  by (auto simp: tx_live_def softDeleteTransaction_def)

lemma sum_list_filter_split:
  fixes f :: "'a \<Rightarrow> int"
  shows "sum_list (map f (filter P xs)) =
         sum_list (map f (filter (\<lambda>x. P x \<and> \<not> Q x) xs)) +
         sum_list (map f (filter P (filter Q xs)))"
  by (induction xs) auto

lemma ledgerSum_softDelete:
  assumes "filter (\<lambda>e. entry_transactionId e = n) es = [e]" and "tx_live ts n"
  shows "ledgerSum (softDeleteTransaction n now ts) es w =
         ledgerSum ts es w - (if entry_walletId e = w then signed e else 0)"
proof -
  let ?P = "\<lambda>e. entry_walletId e = w \<and> tx_live ts (entry_transactionId e)"
  have "e \<in> set (filter (\<lambda>e. entry_transactionId e = n) es)"
    by (simp add: assms(1))
  then have e: "entry_transactionId e = n" by simp
  have "filter (\<lambda>e. entry_walletId e = w \<and>
                  tx_live (softDeleteTransaction n now ts) (entry_transactionId e)) es
      = filter (\<lambda>x. ?P x \<and> \<not> entry_transactionId x = n) es"
    by (intro filter_cong) (auto simp: tx_live_softDelete)
  moreover have "sum_list (map signed (filter ?P es)) =
      sum_list (map signed (filter (\<lambda>x. ?P x \<and> \<not> entry_transactionId x = n) es)) +
      sum_list (map signed (filter ?P (filter (\<lambda>e. entry_transactionId e = n) es)))"
    by (rule sum_list_filter_split)
  ultimately show ?thesis
    using assms(2) e by (simp add: ledgerSum_def assms(1))
qed

lemma balanced_step:
  assumes "\<forall>w \<in> set ws. currentBalance w = openingBalance w + L (wallet_id w)"
    and "\<And>x. L' x = L x + (if x = i then d else 0)" and "\<And>b. f b = b + d"
  shows "\<forall>w \<in> set (updateBalance i f ws).
           currentBalance w = openingBalance w + L' (wallet_id w)"
  using assms by (auto simp: updateBalance_def)

lemma balanced_keep:
  assumes "\<forall>w \<in> set ws. currentBalance w = openingBalance w + L (wallet_id w)"
    and "\<And>x. L' x = L x"
  shows "\<forall>w \<in> set ws. currentBalance w = openingBalance w + L' (wallet_id w)"
  using assms by auto

section \<open>Invariants of the four operations\<close>

lemma result_cases:
  assumes "isl (fst (f s)) \<Longrightarrow> snd (f s) = s"
  obtains "snd (f s) = s" | r where "f s = (Inr r, snd (f s))"
proof (cases "fst (f s)")
  case (Inl e)
  then have "snd (f s) = s" using assms by simp
  then show ?thesis by (rule that(1))
next
  case (Inr r)
  then have "f s = (Inr r, snd (f s))" by (simp add: prod_eq_iff)
  then show ?thesis by (rule that(2))
qed

lemma createTransaction_success:
  assumes "createTransaction d u s = (Inr r, s')"
  shows "\<exists>t es ws.
           s' = s\<lparr>transactions := transactions s @ [t], entries := entries s @ es,
                  nextId := Suc (nextId s) + length es, wallets := ws\<rparr> \<and>
           transaction_id t = nextId s \<and> transaction_deletedAt t = None \<and>
           transaction_loanId t = None \<and>
           (\<forall>e \<in> set es. entry_transactionId e = nextId s) \<and>
           (\<forall>L. (\<forall>w \<in> set (wallets s). currentBalance w = openingBalance w + L (wallet_id w)) \<longrightarrow>
                (\<forall>w \<in> set ws. currentBalance w = openingBalance w + L (wallet_id w) +
                     sum_list (map signed (filter (\<lambda>e. entry_walletId e = wallet_id w) es))))"
proof (cases d)
  case (IncomeData w c dt a)
  with assms have "createIncomeTransaction w c dt a u s = (Inr r, s')" by simp
  note c = createIncomeTransaction_success[OF this]
  show ?thesis
    apply (rule exI[of _ "fst r"], rule exI[of _ "snd r"],
        rule exI[of _ "updateBalance w (increment a) (wallets s)"])
    using c by (auto simp: updateBalance_def increment_def signed_def)
next
  case (ExpenseData w c dt a)
  with assms have "createExpenseTransaction w c dt a u s = (Inr r, s')" by simp
  note c = createExpenseTransaction_success[OF this]
  show ?thesis
    apply (rule exI[of _ "fst r"], rule exI[of _ "snd r"],
        rule exI[of _ "updateBalance w (decrement a) (wallets s)"])
    using c by (auto simp: updateBalance_def decrement_def signed_def)
next
  case (TransferData f t dt a)
  with assms have "createTransferTransaction f t dt a u s = (Inr r, s')" by simp
  note c = createTransferTransaction_success[OF this]
  show ?thesis
    apply (rule exI[of _ "fst r"], rule exI[of _ "snd r"],
        rule exI[of _ "updateBalance t (increment a) (updateBalance f (decrement a) (wallets s))"])
    using c by (auto simp: updateBalance_def increment_def decrement_def signed_def)
next
  case OtherData
  with assms show ?thesis by simp
qed

lemma filter_fresh_append:
  assumes "\<forall>e \<in> set new. entry_transactionId e \<noteq> n"
  shows "filter (\<lambda>e. entry_transactionId e = n) (es @ new)
         = filter (\<lambda>e. entry_transactionId e = n) es"
  using assms by (simp add: filter_empty_conv)

lemma filter_fresh_old:
  assumes "\<forall>e \<in> set es. entry_transactionId e \<noteq> n"
  shows "filter (\<lambda>e. entry_transactionId e = n) (es @ new)
         = filter (\<lambda>e. entry_transactionId e = n) new"
  using assms by (simp add: filter_empty_conv)

lemma createTransaction_ids_fresh:
  assumes "createTransaction d u s = (Inr r, s')" and "ids_fresh s"
  shows "ids_fresh s'"
proof -
  from createTransaction_success[OF assms(1)] obtain t es ws where
    s': "s' = s\<lparr>transactions := transactions s @ [t], entries := entries s @ es,
                  nextId := Suc (nextId s) + length es, wallets := ws\<rparr>" and
    t: "transaction_id t = nextId s" "transaction_loanId t = None" and
    es: "\<forall>e \<in> set es. entry_transactionId e = nextId s" by blast
  show ?thesis using assms(2) t es unfolding ids_fresh_def s' by (auto intro: less_SucI trans_less_add1)
qed

lemma createTransaction_linked:
  assumes "createTransaction d u s = (Inr r, s')" and "ids_fresh s" and "disbursement_linked s"
  shows "disbursement_linked s'"
proof -
  from createTransaction_success[OF assms(1)] obtain t es ws where
    s': "s' = s\<lparr>transactions := transactions s @ [t], entries := entries s @ es,
                  nextId := Suc (nextId s) + length es, wallets := ws\<rparr>" and
    t: "transaction_id t = nextId s" "transaction_loanId t = None" and
    es: "\<forall>e \<in> set es. entry_transactionId e = nextId s" by blast
  have old: "filter (\<lambda>e. entry_transactionId e = transaction_id t0) (entries s @ es)
      = filter (\<lambda>e. entry_transactionId e = transaction_id t0) (entries s)"
    if "t0 \<in> set (transactions s)" for t0
  proof (rule filter_fresh_append)
    from that assms(2) have "transaction_id t0 < nextId s" by (auto simp: ids_fresh_def)
    with es show "\<forall>e \<in> set es. entry_transactionId e \<noteq> transaction_id t0" by auto
  qed
  show ?thesis
    using assms(3) t unfolding disbursement_linked_def s'
    by (auto simp: old simp del: filter_append)
qed

lemma createTransaction_balanced:
  assumes "createTransaction d u s = (Inr r, s')" and "ids_fresh s" and "balanced s"
  shows "balanced s'"
proof -
  from createTransaction_success[OF assms(1)] obtain t es ws where
    s': "s' = s\<lparr>transactions := transactions s @ [t], entries := entries s @ es,
                  nextId := Suc (nextId s) + length es, wallets := ws\<rparr>" and
    t: "transaction_id t = nextId s" "transaction_deletedAt t = None" and
    es: "\<forall>e \<in> set es. entry_transactionId e = nextId s" and
    ws: "\<forall>L. (\<forall>w \<in> set (wallets s). currentBalance w = openingBalance w + L (wallet_id w)) \<longrightarrow>
                (\<forall>w \<in> set ws. currentBalance w = openingBalance w + L (wallet_id w) +
                     sum_list (map signed (filter (\<lambda>e. entry_walletId e = wallet_id w) es)))"
    by blast
  have fresh: "\<forall>e \<in> set (entries s). entry_transactionId e \<noteq> transaction_id t"
    using assms(2) t by (auto simp: ids_fresh_def)
  have post: "ledgerSum (transactions s @ [t]) (entries s @ es) w =
         ledgerSum (transactions s) (entries s) w +
         sum_list (map signed (filter (\<lambda>e. entry_walletId e = w) es))" for w
    using fresh t(2) es t(1) by (intro ledgerSum_post) auto
  from ws assms(3) have "\<forall>w \<in> set ws. currentBalance w =
      openingBalance w + ledgerSum (transactions s) (entries s) (wallet_id w) +
      sum_list (map signed (filter (\<lambda>e. entry_walletId e = wallet_id w) es))"
    unfolding balanced_def by blast
  then show ?thesis unfolding balanced_def s' by (simp add: post)
qed


lemma createLoan_post:
  assumes "createLoan d u s = (Inr l, s')"
  shows "\<exists>t e. s' = s\<lparr>loans := loans s @ [l], transactions := transactions s @ [t],
                       entries := entries s @ [e], nextId := nextId s + 3,
                       wallets := updateBalance (cl_walletId d)
                         (if cl_kind d = you_owe then increment (cl_principal d)
                          else decrement (cl_principal d)) (wallets s)\<rparr> \<and>
           loan_id l = nextId s \<and> loan_kind l = cl_kind d \<and> principal l = cl_principal d \<and>
           outstandingAmount l = cl_principal d \<and> loan_status l = LoanOpen \<and>
           loan_userId l = u \<and> loan_deletedAt l = None \<and> transaction_userId t = u \<and>
           transaction_id t = nextId s + 1 \<and> transaction_deletedAt t = None \<and>
           transaction_loanId t = Some (nextId s) \<and>
           entry_transactionId e = nextId s + 1 \<and> entry_walletId e = cl_walletId d \<and>
           signed e = (if cl_kind d = you_owe then cl_principal d else - cl_principal d)"
proof -
  from createLoan_success[OF assms] obtain w where
    w: "ownedWallet s (cl_walletId d) u = Some w" and
    body: "createLoan_body d u s = Inr (l, s')" by blast
  note eq = body[unfolded createLoan_body_eq[OF w] Let_def, simplified]
  from eq show ?thesis
    apply (intro exI[of _ "last (transactions s')"] exI[of _ "last (entries s')"])
    apply (auto simp: signed_def)
    done
qed

lemma createLoan_ids_fresh:
  assumes "createLoan d u s = (Inr l, s')" and "ids_fresh s"
  shows "ids_fresh s'"
proof -
  from createLoan_post[OF assms(1)] obtain t e where
    s': "s' = s\<lparr>loans := loans s @ [l], transactions := transactions s @ [t],
                       entries := entries s @ [e], nextId := nextId s + 3,
                       wallets := updateBalance (cl_walletId d)
                         (if cl_kind d = you_owe then increment (cl_principal d)
                          else decrement (cl_principal d)) (wallets s)\<rparr>" and
    f: "loan_id l = nextId s" "transaction_id t = nextId s + 1"
       "transaction_loanId t = Some (nextId s)" "entry_transactionId e = nextId s + 1"
    by blast
  show ?thesis using assms(2) f unfolding ids_fresh_def s'
    by (auto intro: trans_less_add1)
qed

lemma createLoan_linked:
  assumes "createLoan d u s = (Inr l, s')" and "ids_fresh s" and "disbursement_linked s"
  shows "disbursement_linked s'"
proof -
  from createLoan_post[OF assms(1)] obtain t e where
    s': "s' = s\<lparr>loans := loans s @ [l], transactions := transactions s @ [t],
                       entries := entries s @ [e], nextId := nextId s + 3,
                       wallets := updateBalance (cl_walletId d)
                         (if cl_kind d = you_owe then increment (cl_principal d)
                          else decrement (cl_principal d)) (wallets s)\<rparr>" and
    f: "loan_id l = nextId s" "loan_kind l = cl_kind d" "principal l = cl_principal d"
       "transaction_id t = nextId s + 1"
       "transaction_loanId t = Some (nextId s)" "entry_transactionId e = nextId s + 1"
       "signed e = (if cl_kind d = you_owe then cl_principal d else - cl_principal d)"
    by blast
  have old: "filter (\<lambda>e. entry_transactionId e = transaction_id t0) (entries s @ [e])
      = filter (\<lambda>e. entry_transactionId e = transaction_id t0) (entries s)"
    if "t0 \<in> set (transactions s)" for t0
  proof (rule filter_fresh_append)
    from that assms(2) have "transaction_id t0 < nextId s" by (auto simp: ids_fresh_def)
    with f show "\<forall>e \<in> set [e]. entry_transactionId e \<noteq> transaction_id t0" by auto
  qed
  have new: "filter (\<lambda>e. entry_transactionId e = transaction_id t) (entries s @ [e]) = [e]"
  proof -
    have "\<forall>e \<in> set (entries s). entry_transactionId e \<noteq> transaction_id t"
      using assms(2) f by (auto simp: ids_fresh_def)
    from filter_fresh_old[OF this] show ?thesis using f by simp
  qed
  have no_old_link: "transaction_loanId t0 \<noteq> Some (loan_id l)" if "t0 \<in> set (transactions s)" for t0
    using that assms(2) f by (auto simp: ids_fresh_def)
  have no_new_link: "transaction_loanId t \<noteq> Some (loan_id l0)" if "l0 \<in> set (loans s)" for l0
    using that assms(2) f by (auto simp: ids_fresh_def)
  show ?thesis
    unfolding disbursement_linked_def
  proof (intro ballI impI allI)
    fix l0 t0 e0
    assume l0: "l0 \<in> set (loans s')" and t0: "t0 \<in> set (transactions s')"
      and link: "transaction_loanId t0 = Some (loan_id l0)"
      and one: "filter (\<lambda>e. entry_transactionId e = transaction_id t0) (entries s') = [e0]"
    from l0 have l0': "l0 \<in> set (loans s) \<or> l0 = l" by (auto simp: s')
    from t0 have t0': "t0 \<in> set (transactions s) \<or> t0 = t" by (auto simp: s')
    from one have one': "filter (\<lambda>e. entry_transactionId e = transaction_id t0) (entries s @ [e]) = [e0]"
      by (simp add: s')
    show "signed e0 = (if loan_kind l0 = you_owe then principal l0 else - principal l0)"
    proof (cases "t0 = t")
      case True
      with link no_new_link l0' have "l0 = l" by blast
      moreover from True one' new have "e0 = e" by simp
      ultimately show ?thesis using f by simp
    next
      case False
      with t0' have t0s: "t0 \<in> set (transactions s)" by blast
      with link no_old_link l0' have l0s: "l0 \<in> set (loans s)" by blast
      from one' old[OF t0s]
      have "filter (\<lambda>e. entry_transactionId e = transaction_id t0) (entries s) = [e0]" by simp
      with assms(3) l0s t0s link show ?thesis unfolding disbursement_linked_def by blast
    qed
  qed
qed

lemma createLoan_balanced:
  assumes "createLoan d u s = (Inr l, s')" and "ids_fresh s" and "balanced s"
  shows "balanced s'"
proof -
  from createLoan_post[OF assms(1)] obtain t e where
    s': "s' = s\<lparr>loans := loans s @ [l], transactions := transactions s @ [t],
                       entries := entries s @ [e], nextId := nextId s + 3,
                       wallets := updateBalance (cl_walletId d)
                         (if cl_kind d = you_owe then increment (cl_principal d)
                          else decrement (cl_principal d)) (wallets s)\<rparr>" and
    f: "transaction_id t = nextId s + 1" "transaction_deletedAt t = None"
       "entry_transactionId e = nextId s + 1" "entry_walletId e = cl_walletId d"
       "signed e = (if cl_kind d = you_owe then cl_principal d else - cl_principal d)"
    by blast
  have fresh: "\<forall>e \<in> set (entries s). entry_transactionId e \<noteq> transaction_id t"
    using assms(2) f by (auto simp: ids_fresh_def)
  have post: "ledgerSum (transactions s @ [t]) (entries s @ [e]) w =
         ledgerSum (transactions s) (entries s) w +
         (if w = cl_walletId d then signed e else 0)" for w
    using ledgerSum_post[OF fresh f(2), of "[e]" "transactions s" w] f by auto
  have "\<forall>w \<in> set (updateBalance (cl_walletId d)
                         (if cl_kind d = you_owe then increment (cl_principal d)
                          else decrement (cl_principal d)) (wallets s)).
      currentBalance w = openingBalance w +
        ledgerSum (transactions s @ [t]) (entries s @ [e]) (wallet_id w)"
    by (rule balanced_step[where L = "ledgerSum (transactions s) (entries s)" and d = "signed e"])
       (use assms(3) post f in \<open>auto simp: balanced_def increment_def decrement_def\<close>)
  then show ?thesis unfolding balanced_def s' by simp
qed



lemma createLoanPayment_post:
  assumes "createLoanPayment d u s = (Inr p, s')"
  shows "\<exists>l t e. ownedLoan s (cp_loanId d) u = Some l \<and> loan_status l = LoanOpen \<and>
           cp_amount d \<le> outstandingAmount l \<and>
           s' = s\<lparr>transactions := transactions s @ [t], entries := entries s @ [e],
                  loanPayments := loanPayments s @ [p], nextId := nextId s + 3,
                  wallets := updateBalance (cp_walletId d)
                    (if loan_kind l = you_owe then decrement (cp_amount d)
                     else increment (cp_amount d)) (wallets s),
                  loans := settleLoans l (cp_loanId d) (cp_amount d) (loans s)\<rparr> \<and>
           transaction_id t = nextId s \<and> transaction_deletedAt t = None \<and>
           transaction_loanId t = None \<and>
           entry_transactionId e = nextId s \<and> entry_walletId e = cp_walletId d \<and>
           signed e = (if loan_kind l = you_owe then - cp_amount d else cp_amount d) \<and>
           payment_loanId p = cp_loanId d \<and> payment_amount p = cp_amount d"
proof -
  from createLoanPayment_success[OF assms] obtain l w where
    l: "ownedLoan s (cp_loanId d) u = Some l" "loan_status l = LoanOpen"
       "cp_amount d \<le> outstandingAmount l" and
    w: "ownedWallet s (cp_walletId d) u = Some w" and
    body: "createLoanPayment_body l d u s = Inr (p, s')" by blast
  note eq = body[unfolded createLoanPayment_body_eq[OF w l(1)] Let_def, simplified]
  from eq l show ?thesis
    apply (intro exI[of _ l] exI[of _ "last (transactions s')"] exI[of _ "last (entries s')"])
    apply (auto simp: signed_def settleLoans_def)
    done
qed

lemma createLoanPayment_ids_fresh:
  assumes "createLoanPayment d u s = (Inr p, s')" and "ids_fresh s"
  shows "ids_fresh s'"
proof -
  from createLoanPayment_post[OF assms(1)] obtain l t e where
    l: "ownedLoan s (cp_loanId d) u = Some l" and
    s': "s' = s\<lparr>transactions := transactions s @ [t], entries := entries s @ [e],
                  loanPayments := loanPayments s @ [p], nextId := nextId s + 3,
                  wallets := updateBalance (cp_walletId d)
                    (if loan_kind l = you_owe then decrement (cp_amount d)
                     else increment (cp_amount d)) (wallets s),
                  loans := settleLoans l (cp_loanId d) (cp_amount d) (loans s)\<rparr>" and
    f: "transaction_id t = nextId s" "transaction_loanId t = None"
       "entry_transactionId e = nextId s" "payment_loanId p = cp_loanId d"
    by blast
  from ownedLoan_exists[OF l] assms(2) have "cp_loanId d < nextId s"
    by (auto simp: ids_fresh_def)
  then show ?thesis using assms(2) f unfolding ids_fresh_def s'
    by (auto simp: settleLoans_def intro: trans_less_add1 split: if_splits)
qed

lemma createLoanPayment_linked:
  assumes "createLoanPayment d u s = (Inr p, s')" and "ids_fresh s" and "disbursement_linked s"
  shows "disbursement_linked s'"
proof -
  from createLoanPayment_post[OF assms(1)] obtain l t e where
    s': "s' = s\<lparr>transactions := transactions s @ [t], entries := entries s @ [e],
                  loanPayments := loanPayments s @ [p], nextId := nextId s + 3,
                  wallets := updateBalance (cp_walletId d)
                    (if loan_kind l = you_owe then decrement (cp_amount d)
                     else increment (cp_amount d)) (wallets s),
                  loans := settleLoans l (cp_loanId d) (cp_amount d) (loans s)\<rparr>" and
    f: "transaction_id t = nextId s" "transaction_loanId t = None"
       "entry_transactionId e = nextId s"
    by blast
  have old: "filter (\<lambda>e. entry_transactionId e = transaction_id t0) (entries s @ [e])
      = filter (\<lambda>e. entry_transactionId e = transaction_id t0) (entries s)"
    if "t0 \<in> set (transactions s)" for t0
  proof (rule filter_fresh_append)
    from that assms(2) have "transaction_id t0 < nextId s" by (auto simp: ids_fresh_def)
    with f show "\<forall>e \<in> set [e]. entry_transactionId e \<noteq> transaction_id t0" by auto
  qed
  show ?thesis
    unfolding disbursement_linked_def
  proof (intro ballI impI allI)
    fix l0 t0 e0
    assume l0: "l0 \<in> set (loans s')" and t0: "t0 \<in> set (transactions s')"
      and link: "transaction_loanId t0 = Some (loan_id l0)"
      and one: "filter (\<lambda>e. entry_transactionId e = transaction_id t0) (entries s') = [e0]"
    from l0 obtain l1 where l1: "l1 \<in> set (loans s)" "loan_id l0 = loan_id l1"
      "loan_kind l0 = loan_kind l1" "principal l0 = principal l1"
      by (auto simp: s' settleLoans_def split: if_splits)
    from t0 link f have t0s: "t0 \<in> set (transactions s)" by (auto simp: s')
    from one old[OF t0s]
    have "filter (\<lambda>e. entry_transactionId e = transaction_id t0) (entries s) = [e0]"
      by (simp add: s')
    with assms(3) l1 t0s link
    show "signed e0 = (if loan_kind l0 = you_owe then principal l0 else - principal l0)"
      unfolding disbursement_linked_def by simp
  qed
qed

lemma createLoanPayment_balanced:
  assumes "createLoanPayment d u s = (Inr p, s')" and "ids_fresh s" and "balanced s"
  shows "balanced s'"
proof -
  from createLoanPayment_post[OF assms(1)] obtain l t e where
    s': "s' = s\<lparr>transactions := transactions s @ [t], entries := entries s @ [e],
                  loanPayments := loanPayments s @ [p], nextId := nextId s + 3,
                  wallets := updateBalance (cp_walletId d)
                    (if loan_kind l = you_owe then decrement (cp_amount d)
                     else increment (cp_amount d)) (wallets s),
                  loans := settleLoans l (cp_loanId d) (cp_amount d) (loans s)\<rparr>" and
    f: "transaction_id t = nextId s" "transaction_deletedAt t = None"
       "entry_transactionId e = nextId s" "entry_walletId e = cp_walletId d"
       "signed e = (if loan_kind l = you_owe then - cp_amount d else cp_amount d)"
    by blast
  have fresh: "\<forall>e \<in> set (entries s). entry_transactionId e \<noteq> transaction_id t"
    using assms(2) f by (auto simp: ids_fresh_def)
  have post: "ledgerSum (transactions s @ [t]) (entries s @ [e]) w =
         ledgerSum (transactions s) (entries s) w +
         (if w = cp_walletId d then signed e else 0)" for w
    using ledgerSum_post[OF fresh f(2), of "[e]" "transactions s" w] f by auto
  have "\<forall>w \<in> set (updateBalance (cp_walletId d)
                    (if loan_kind l = you_owe then decrement (cp_amount d)
                     else increment (cp_amount d)) (wallets s)).
      currentBalance w = openingBalance w +
        ledgerSum (transactions s @ [t]) (entries s @ [e]) (wallet_id w)"
    by (rule balanced_step[where L = "ledgerSum (transactions s) (entries s)" and d = "signed e"])
       (use assms(3) post f in \<open>auto simp: balanced_def increment_def decrement_def\<close>)
  then show ?thesis unfolding balanced_def s' by simp
qed



lemma originatingEntry_Some:
  assumes "originatingEntry s l u = Some (bt, e)"
  shows "bt \<in> set (transactions s) \<and> transaction_deletedAt bt = None \<and>
         transaction_loanId bt = Some (loan_id l) \<and>
         filter (\<lambda>e. entry_transactionId e = transaction_id bt) (entries s) = [e]"
  using assms
  by (auto simp: originatingEntry_def find_Some_iff split: option.splits list.splits)

lemma deleteLoan_post:
  assumes "deleteLoan i u now s = (Inr r, s')"
  shows "\<exists>l. ownedLoan s i u = Some l \<and>
           ((originatingEntry s l u = None \<and>
             s' = s\<lparr>loans := softDeleteLoan i now (loans s)\<rparr>) \<or>
            (\<exists>bt e. originatingEntry s l u = Some (bt, e) \<and>
               s' = s\<lparr>wallets := updateBalance (entry_walletId e)
                                    (if loan_kind l = you_owe then decrement (principal l)
                                     else increment (principal l)) (wallets s),
                      transactions := softDeleteTransaction (transaction_id bt) now
                                        (transactions s),
                      loans := softDeleteLoan i now (loans s)\<rparr>))"
proof -
  from assms obtain l where l: "ownedLoan s i u = Some l"
    by (auto simp: deleteLoan_cases split: option.splits)
  show ?thesis
  proof (cases "originatingEntry s l u")
    case None
    with assms l show ?thesis
      by (auto simp: deleteLoan_cases reverseDisbursement_cases split: if_splits)
  next
    case (Some be)
    obtain bt e where be: "be = (bt, e)" by (cases be)
    from assms l Some be have "s' = s\<lparr>wallets := updateBalance (entry_walletId e)
                                    (if loan_kind l = you_owe then decrement (principal l)
                                     else increment (principal l)) (wallets s),
                      transactions := softDeleteTransaction (transaction_id bt) now
                                        (transactions s),
                      loans := softDeleteLoan i now (loans s)\<rparr>"
      by (auto simp: deleteLoan_cases reverseDisbursement_cases split: if_splits)
    with l Some be show ?thesis by blast
  qed
qed

lemma deleteLoan_frame:
  assumes "deleteLoan i u now s = (Inr r, s')"
  shows "entries s' = entries s \<and> loanPayments s' = loanPayments s \<and>
         nextId s' = nextId s \<and> loans s' = softDeleteLoan i now (loans s) \<and>
         (transactions s' = transactions s \<or>
          (\<exists>n. transactions s' = softDeleteTransaction n now (transactions s)))"
  using deleteLoan_post[OF assms] by auto

lemma softDeleteLoan_core:
  "r' \<in> set (softDeleteLoan i now ls) \<Longrightarrow>
   \<exists>r \<in> set ls. loan_id r' = loan_id r \<and> loan_kind r' = loan_kind r \<and>
     principal r' = principal r \<and> outstandingAmount r' = outstandingAmount r \<and>
     loan_status r' = loan_status r"
  by (auto simp: softDeleteLoan_def split: if_splits)


lemma softDeleteTransaction_core:
  "t' \<in> set (softDeleteTransaction n now ts) \<Longrightarrow>
   \<exists>t \<in> set ts. transaction_id t' = transaction_id t \<and>
     transaction_loanId t' = transaction_loanId t"
  by (auto simp: softDeleteTransaction_def split: if_splits)

lemma deleteLoan_ids_fresh:
  assumes "deleteLoan i u now s = (Inr r, s')" and "ids_fresh s"
  shows "ids_fresh s'"
proof -
  from deleteLoan_frame[OF assms(1)] have e: "entries s' = entries s" "loanPayments s' = loanPayments s" "nextId s' = nextId s"
    and l: "loans s' = softDeleteLoan i now (loans s)"
    and t: "transactions s' = transactions s \<or>
            (\<exists>n. transactions s' = softDeleteTransaction n now (transactions s))"
    by simp_all
  have "\<forall>l \<in> set (loans s'). loan_id l < nextId s"
    using assms(2) unfolding l by (auto simp: ids_fresh_def dest!: softDeleteLoan_core)
  moreover have "\<forall>t \<in> set (transactions s'). transaction_id t < nextId s \<and>
        (\<forall>i. transaction_loanId t = Some i \<longrightarrow> i < nextId s)"
    using assms(2) t by (auto simp: ids_fresh_def dest!: softDeleteTransaction_core)
  ultimately show ?thesis using assms(2) unfolding ids_fresh_def e by simp
qed

lemma deleteLoan_linked:
  assumes "deleteLoan i u now s = (Inr r, s')" and "disbursement_linked s"
  shows "disbursement_linked s'"
proof -
  from deleteLoan_frame[OF assms(1)] have e: "entries s' = entries s"
    and l: "loans s' = softDeleteLoan i now (loans s)"
    and t: "transactions s' = transactions s \<or>
            (\<exists>n. transactions s' = softDeleteTransaction n now (transactions s))"
    by simp_all
  show ?thesis
    unfolding disbursement_linked_def
  proof (intro ballI impI allI)
    fix l0 t0 e0
    assume l0: "l0 \<in> set (loans s')" and t0: "t0 \<in> set (transactions s')"
      and link: "transaction_loanId t0 = Some (loan_id l0)"
      and one: "filter (\<lambda>e. entry_transactionId e = transaction_id t0) (entries s') = [e0]"
    from l0 softDeleteLoan_core obtain l1 where l1: "l1 \<in> set (loans s)"
      "loan_id l0 = loan_id l1" "loan_kind l0 = loan_kind l1" "principal l0 = principal l1"
      unfolding l by blast
    from t0 t softDeleteTransaction_core obtain t1 where t1: "t1 \<in> set (transactions s)"
      "transaction_id t0 = transaction_id t1" "transaction_loanId t0 = transaction_loanId t1"
      by metis
    from assms(2) l1 t1 link one
    show "signed e0 = (if loan_kind l0 = you_owe then principal l0 else - principal l0)"
      unfolding disbursement_linked_def e by simp
  qed
qed


lemma deleteLoan_balanced:
  assumes "deleteLoan i u now s = (Inr r, s')" and "disbursement_linked s" and "balanced s"
  shows "balanced s'"
proof -
  from deleteLoan_post[OF assms(1)] obtain l where lc: "ownedLoan s i u = Some l \<and>
       ((originatingEntry s l u = None \<and>
             s' = s\<lparr>loans := softDeleteLoan i now (loans s)\<rparr>) \<or>
            (\<exists>bt e. originatingEntry s l u = Some (bt, e) \<and>
               s' = s\<lparr>wallets := updateBalance (entry_walletId e)
                                    (if loan_kind l = you_owe then decrement (principal l)
                                     else increment (principal l)) (wallets s),
                      transactions := softDeleteTransaction (transaction_id bt) now
                                        (transactions s),
                      loans := softDeleteLoan i now (loans s)\<rparr>))" ..
  then have l: "ownedLoan s i u = Some l" ..
  from lc have "(originatingEntry s l u = None \<and>
             s' = s\<lparr>loans := softDeleteLoan i now (loans s)\<rparr>) \<or>
            (\<exists>bt e. originatingEntry s l u = Some (bt, e) \<and>
               s' = s\<lparr>wallets := updateBalance (entry_walletId e)
                                    (if loan_kind l = you_owe then decrement (principal l)
                                     else increment (principal l)) (wallets s),
                      transactions := softDeleteTransaction (transaction_id bt) now
                                        (transactions s),
                      loans := softDeleteLoan i now (loans s)\<rparr>)" ..
  then show ?thesis
  proof
    assume "originatingEntry s l u = None \<and> s' = s\<lparr>loans := softDeleteLoan i now (loans s)\<rparr>"
    then show ?thesis using assms(3) by (simp add: balanced_def)
  next
    assume "\<exists>bt e. originatingEntry s l u = Some (bt, e) \<and>
               s' = s\<lparr>wallets := updateBalance (entry_walletId e)
                                    (if loan_kind l = you_owe then decrement (principal l)
                                     else increment (principal l)) (wallets s),
                      transactions := softDeleteTransaction (transaction_id bt) now
                                        (transactions s),
                      loans := softDeleteLoan i now (loans s)\<rparr>"
    then obtain bt e where both: "originatingEntry s l u = Some (bt, e) \<and>
      s' = s\<lparr>wallets := updateBalance (entry_walletId e)
                                    (if loan_kind l = you_owe then decrement (principal l)
                                     else increment (principal l)) (wallets s),
                      transactions := softDeleteTransaction (transaction_id bt) now
                                        (transactions s),
                      loans := softDeleteLoan i now (loans s)\<rparr>" by (elim exE)
    then have oe: "originatingEntry s l u = Some (bt, e)" ..
    from both have s': "s' = s\<lparr>wallets := updateBalance (entry_walletId e)
                                    (if loan_kind l = you_owe then decrement (principal l)
                                     else increment (principal l)) (wallets s),
                      transactions := softDeleteTransaction (transaction_id bt) now
                                        (transactions s),
                      loans := softDeleteLoan i now (loans s)\<rparr>" ..
    note o = originatingEntry_Some[OF oe]
    from ownedLoan_exists[OF l] have lin: "l \<in> set (loans s)" by simp
    from assms(2) lin o have sg: "signed e = (if loan_kind l = you_owe then principal l else - principal l)"
      unfolding disbursement_linked_def by blast
    from o have live: "tx_live (transactions s) (transaction_id bt)"
      by (auto simp: tx_live_def)
    have del: "ledgerSum (softDeleteTransaction (transaction_id bt) now (transactions s)) (entries s) w
        = ledgerSum (transactions s) (entries s) w + (if w = entry_walletId e then - signed e else 0)"
      for w
      using ledgerSum_softDelete[of "transaction_id bt" "entries s" e "transactions s" now w] o live
      by auto
    have "\<forall>w \<in> set (updateBalance (entry_walletId e)
                                    (if loan_kind l = you_owe then decrement (principal l)
                                     else increment (principal l)) (wallets s)).
      currentBalance w = openingBalance w +
        ledgerSum (softDeleteTransaction (transaction_id bt) now (transactions s)) (entries s)
          (wallet_id w)"
      by (rule balanced_step[where L = "ledgerSum (transactions s) (entries s)"
            and d = "- signed e"])
         (use assms(3) del sg in \<open>auto simp: balanced_def increment_def decrement_def\<close>)
    then show ?thesis unfolding balanced_def s' by simp
  qed
qed

section \<open>Histories preserve the invariants\<close>

lemma emptyLedger_invariants:
  assumes "emptyLedger s"
  shows "ids_fresh s" "disbursement_linked s" "balanced s" "loans_accounted s"
  using assms
  by (simp_all add: emptyLedger_def ids_fresh_def disbursement_linked_def balanced_def
      loans_accounted_def ledgerSum_def)

lemma perform_ledger:
  assumes "ids_fresh s \<and> disbursement_linked s \<and> balanced s"
  shows "ids_fresh (perform r s) \<and> disbursement_linked (perform r s) \<and> balanced (perform r s)"
proof (cases r)
  case (CreateTransaction d u)
  show ?thesis
  proof (rule result_cases[of "createTransaction d u" s])
    show "isl (fst (createTransaction d u s)) \<Longrightarrow> snd (createTransaction d u s) = s"
      by (rule createTransaction_error)
  next
    assume "snd (createTransaction d u s) = s"
    with assms CreateTransaction show ?thesis by simp
  next
    fix x assume ok: "createTransaction d u s = (Inr x, snd (createTransaction d u s))"
    from assms createTransaction_ids_fresh[OF ok] createTransaction_linked[OF ok]
      createTransaction_balanced[OF ok]
    show ?thesis by (simp add: CreateTransaction)
  qed
next
  case (CreateLoan d u)
  show ?thesis
  proof (rule result_cases[of "createLoan d u" s])
    show "isl (fst (createLoan d u s)) \<Longrightarrow> snd (createLoan d u s) = s"
      by (rule createLoan_error)
  next
    assume "snd (createLoan d u s) = s"
    with assms CreateLoan show ?thesis by simp
  next
    fix x assume ok: "createLoan d u s = (Inr x, snd (createLoan d u s))"
    from assms createLoan_ids_fresh[OF ok] createLoan_linked[OF ok] createLoan_balanced[OF ok]
    show ?thesis by (simp add: CreateLoan)
  qed
next
  case (CreateLoanPayment d u)
  show ?thesis
  proof (rule result_cases[of "createLoanPayment d u" s])
    show "isl (fst (createLoanPayment d u s)) \<Longrightarrow> snd (createLoanPayment d u s) = s"
      by (rule createLoanPayment_error)
  next
    assume "snd (createLoanPayment d u s) = s"
    with assms CreateLoanPayment show ?thesis by simp
  next
    fix x assume ok: "createLoanPayment d u s = (Inr x, snd (createLoanPayment d u s))"
    from assms createLoanPayment_ids_fresh[OF ok] createLoanPayment_linked[OF ok]
      createLoanPayment_balanced[OF ok]
    show ?thesis by (simp add: CreateLoanPayment)
  qed
next
  case (DeleteLoan i u now)
  show ?thesis
  proof (rule result_cases[of "deleteLoan i u now" s])
    show "isl (fst (deleteLoan i u now s)) \<Longrightarrow> snd (deleteLoan i u now s) = s"
      by (rule deleteLoan_error)
  next
    assume "snd (deleteLoan i u now s) = s"
    with assms DeleteLoan show ?thesis by simp
  next
    fix x assume ok: "deleteLoan i u now s = (Inr x, snd (deleteLoan i u now s))"
    from assms deleteLoan_ids_fresh[OF ok] deleteLoan_linked[OF ok] deleteLoan_balanced[OF ok]
    show ?thesis by (simp add: DeleteLoan)
  qed
qed

lemma run_ledger:
  "ids_fresh s \<and> disbursement_linked s \<and> balanced s \<Longrightarrow>
   ids_fresh (run rs s) \<and> disbursement_linked (run rs s) \<and> balanced (run rs s)"
proof (induction rs arbitrary: s)
  case Nil
  then show ?case by simp
next
  case (Cons r rs)
  from Cons.IH[OF perform_ledger[OF Cons.prems]] show ?case by simp
qed



text \<open>
  Balances and ledger on amounts that are whole hundredths. Start from a store in which
  every wallet's current balance is its opening balance and nothing has been posted.
  After any sequence of calls of \<open>createTransaction\<close> (of any type), \<open>createLoan\<close>,
  \<open>createLoanPayment\<close> and \<open>deleteLoan\<close>, with any such amounts and whether they succeed or
  fail, the current balance of every wallet equals its opening balance plus the sum of
  the amounts of the entries on that wallet under transactions that are not soft-deleted,
  counted positive for direction in and negative for out. An amount with a third decimal
  breaks this equality, as the last section shows.
\<close>

theorem balance_equals_ledger:
  assumes "emptyLedger s0"
  shows "\<forall>w \<in> set (wallets (run rs s0)).
           currentBalance w =
             openingBalance w +
             ledgerSum (transactions (run rs s0)) (entries (run rs s0)) (wallet_id w)"
proof -
  from emptyLedger_invariants[OF assms]
  have "ids_fresh s0 \<and> disbursement_linked s0 \<and> balanced s0" by simp
  from run_ledger[OF this, of rs] have "balanced (run rs s0)" by simp
  then show ?thesis by (simp add: balanced_def)
qed

theorem balance_equals_ledger_witness:
  "emptyLedger demo \<and>
   map (\<lambda>w. (wallet_id w, openingBalance w, currentBalance w)) (wallets (run demo_history demo))
     = [(1, 50000, 20000), (2, 10000, 10000)] \<and>
   map (\<lambda>t. (transaction_id t, transaction_deletedAt t)) (transactions (run demo_history demo))
     = [(11, None), (13, None), (15, None), (18, None), (22, Some 5), (24, None)] \<and>
   ledgerSum (transactions (run demo_history demo)) (entries (run demo_history demo)) 1 = - 30000 \<and>
   ledgerSum (transactions (run demo_history demo)) (entries (run demo_history demo)) 2 = 0 \<and>
   list_all
     (\<lambda>w. currentBalance w =
        openingBalance w +
        ledgerSum (transactions (run demo_history demo)) (entries (run demo_history demo))
          (wallet_id w))
     (wallets (run demo_history demo))"
proof -
  have e: "emptyLedger demo" by code_simp
  have w: "map (\<lambda>w. (wallet_id w, openingBalance w, currentBalance w))
             (wallets (run demo_history demo)) = [(1, 50000, 20000), (2, 10000, 10000)]"
    by code_simp
  have t: "map (\<lambda>t. (transaction_id t, transaction_deletedAt t))
             (transactions (run demo_history demo))
     = [(11, None), (13, None), (15, None), (18, None), (22, Some 5), (24, None)]"
    by code_simp
  have l1: "ledgerSum (transactions (run demo_history demo)) (entries (run demo_history demo)) 1
      = - 30000" by code_simp
  have l2: "ledgerSum (transactions (run demo_history demo)) (entries (run demo_history demo)) 2
      = 0" by code_simp
  from balance_equals_ledger[OF e, of demo_history]
  have "list_all
     (\<lambda>w. currentBalance w =
        openingBalance w +
        ledgerSum (transactions (run demo_history demo)) (entries (run demo_history demo))
          (wallet_id w))
     (wallets (run demo_history demo))"
    by (simp add: list_all_iff)
  with e w t l1 l2 show ?thesis by blast
qed

section \<open>Outstanding amounts\<close>







section \<open>Request validation\<close>

text \<open>
  The service functions do not look at the sign of the amount: called directly with
  amount 0, \<open>createTransaction\<close> posts an income of 0.
\<close>

lemma service_accepts_zero_amount:
  "fst (createTransaction (IncomeData 1 4 0 0) 7 demo) =
     Inr (\<lparr>transaction_id = 10, transaction_userId = 7, transaction_type = income,
            transactionDate = 0, transaction_categoryId = Some 4, transaction_amount = 0,
            transaction_deletedAt = None, transaction_loanId = None\<rparr>,
          [\<lparr>entry_id = 11, entry_transactionId = 10, entry_walletId = 1,
            entry_direction = DirIn, entry_amount = 0\<rparr>])"
  by code_simp

text \<open>
  C9. A request that carries a monetary amount (a transaction of any type, the principal
  of a new loan, the amount of a loan payment) and whose amount is \<open>\<le> 0\<close> is answered at
  the entry point with an error, and the store is left as it was. A request whose amount
  is positive, or that carries none, is handed to its service function.
\<close>

theorem nonpositive_amount_rejected:
  "(requestAmount r = Some a \<and> a \<le> 0 \<longrightarrow>
      isl (fst (entryPoint r s)) \<and> snd (entryPoint r s) = s) \<and>
   ((requestAmount r = Some a \<and> 0 < a) \<or> requestAmount r = None \<longrightarrow>
      entryPoint r s = serve r s)"
  by (auto simp: entryPoint_def)

theorem nonpositive_amount_rejected_witness:
  "entryPoint (CreateTransaction (IncomeData 1 4 0 0) 7) demo = (Inl VALIDATION_ERROR, demo) \<and>
   entryPoint (CreateTransaction (ExpenseData 1 3 0 (- 100)) 7) demo = (Inl VALIDATION_ERROR, demo) \<and>
   entryPoint (CreateTransaction (TransferData 1 2 0 0) 7) demo = (Inl VALIDATION_ERROR, demo) \<and>
   entryPoint (CreateLoan \<lparr>cl_kind = you_owe, cl_principal = 0, cl_walletId = 1,
                           cl_startDate = 0\<rparr> 7) demo = (Inl VALIDATION_ERROR, demo) \<and>
   entryPoint (CreateLoanPayment \<lparr>cp_loanId = 10, cp_walletId = 1, cp_paymentDate = 1,
                                  cp_amount = - 1\<rparr> 7) demo_loan
     = (Inl VALIDATION_ERROR, demo_loan) \<and>
   entryPoint (DeleteLoan 10 7 9) demo_loan = serve (DeleteLoan 10 7 9) demo_loan"
proof -
  let ?r1 = "CreateTransaction (IncomeData 1 4 0 0) 7"
  let ?r2 = "CreateTransaction (ExpenseData 1 3 0 (- 100)) 7"
  let ?r3 = "CreateTransaction (TransferData 1 2 0 0) 7"
  let ?r4 = "CreateLoan \<lparr>cl_kind = you_owe, cl_principal = 0, cl_walletId = 1,
                           cl_startDate = 0\<rparr> 7"
  let ?r5 = "CreateLoanPayment \<lparr>cp_loanId = 10, cp_walletId = 1, cp_paymentDate = 1,
                                  cp_amount = - 1\<rparr> 7"
  have e: "fst (entryPoint ?r1 demo) = Inl VALIDATION_ERROR"
    "fst (entryPoint ?r2 demo) = Inl VALIDATION_ERROR"
    "fst (entryPoint ?r3 demo) = Inl VALIDATION_ERROR"
    "fst (entryPoint ?r4 demo) = Inl VALIDATION_ERROR"
    "fst (entryPoint ?r5 demo_loan) = Inl VALIDATION_ERROR"
    by (simp_all add: entryPoint_def)
  have h: "requestAmount ?r1 = Some 0 \<and> (0::int) \<le> 0"
    "requestAmount ?r2 = Some (- 100) \<and> (- 100::int) \<le> 0"
    "requestAmount ?r3 = Some 0 \<and> (0::int) \<le> 0"
    "requestAmount ?r4 = Some 0 \<and> (0::int) \<le> 0"
    "requestAmount ?r5 = Some (- 1) \<and> (- 1::int) \<le> 0"
    "requestAmount (DeleteLoan 10 7 9) = None"
    by simp_all
  from nonpositive_amount_rejected[of ?r1 0 demo] h(1)
  have c1: "snd (entryPoint ?r1 demo) = demo" by blast
  from nonpositive_amount_rejected[of ?r2 "- 100" demo] h(2)
  have c2: "snd (entryPoint ?r2 demo) = demo" by blast
  from nonpositive_amount_rejected[of ?r3 0 demo] h(3)
  have c3: "snd (entryPoint ?r3 demo) = demo" by blast
  from nonpositive_amount_rejected[of ?r4 0 demo] h(4)
  have c4: "snd (entryPoint ?r4 demo) = demo" by blast
  from nonpositive_amount_rejected[of ?r5 "- 1" demo_loan] h(5)
  have c5: "snd (entryPoint ?r5 demo_loan) = demo_loan" by blast
  from nonpositive_amount_rejected[of "DeleteLoan 10 7 9" 0 demo_loan] h(6)
  have c6: "entryPoint (DeleteLoan 10 7 9) demo_loan = serve (DeleteLoan 10 7 9) demo_loan"
    by blast
  from e c1 c2 c3 c4 c5 c6 show ?thesis by (simp add: prod_eq_iff)
qed

section \<open>The disbursement of a live loan is always found\<close>

lemma post_present:
  assumes p: "disbursement_present s" and f: "ids_fresh s"
    and t: "transaction_id t = nextId s" "transaction_loanId t = None"
    and es: "\<forall>e \<in> set es. entry_transactionId e = nextId s"
    and s': "transactions s' = transactions s @ [t]" "entries s' = entries s @ es"
    and ls: "\<forall>l' \<in> set (loans s'). \<exists>l \<in> set (loans s). loan_id l' = loan_id l \<and>
               loan_userId l' = loan_userId l \<and> loan_deletedAt l' = loan_deletedAt l"
  shows "disbursement_present s'"
proof -
  have old: "filter (\<lambda>e. entry_transactionId e = transaction_id t0) (entries s @ es)
      = filter (\<lambda>e. entry_transactionId e = transaction_id t0) (entries s)"
    if "t0 \<in> set (transactions s)" for t0
  proof (rule filter_fresh_append)
    from that f have "transaction_id t0 < nextId s" by (auto simp: ids_fresh_def)
    with es show "\<forall>e \<in> set es. entry_transactionId e \<noteq> transaction_id t0" by auto
  qed
  have d: "distinct (map transaction_id (transactions s'))"
    using p f t by (auto simp: s' disbursement_present_def ids_fresh_def)
  have one: "\<forall>t0 \<in> set (transactions s'). transaction_loanId t0 \<noteq> None \<longrightarrow>
        (\<exists>e. filter (\<lambda>e. entry_transactionId e = transaction_id t0) (entries s') = [e])"
    using p t by (auto simp: s' disbursement_present_def old simp del: filter_append)
  have live: "\<forall>l \<in> set (loans s'). loan_deletedAt l = None \<longrightarrow>
        (\<exists>t \<in> set (transactions s').
           transaction_userId t = loan_userId l \<and> transaction_deletedAt t = None \<and>
           transaction_loanId t = Some (loan_id l))"
  proof (intro ballI impI)
    fix l' assume l': "l' \<in> set (loans s')" "loan_deletedAt l' = None"
    with ls obtain l where l: "l \<in> set (loans s)" "loan_id l' = loan_id l"
      "loan_userId l' = loan_userId l" "loan_deletedAt l = None" by metis
    with p obtain t0 where "t0 \<in> set (transactions s)" "transaction_userId t0 = loan_userId l"
      "transaction_deletedAt t0 = None" "transaction_loanId t0 = Some (loan_id l)"
      unfolding disbursement_present_def by blast
    with l show "\<exists>t \<in> set (transactions s').
           transaction_userId t = loan_userId l' \<and> transaction_deletedAt t = None \<and>
           transaction_loanId t = Some (loan_id l')"
      by (auto simp: s')
  qed
  from d one live show ?thesis unfolding disbursement_present_def by blast
qed

lemma createTransaction_present:
  assumes "createTransaction d u s = (Inr r, s')" and "ids_fresh s" and "disbursement_present s"
  shows "disbursement_present s'"
proof -
  from createTransaction_success[OF assms(1)] obtain t es ws where
    s': "s' = s\<lparr>transactions := transactions s @ [t], entries := entries s @ es,
                  nextId := Suc (nextId s) + length es, wallets := ws\<rparr>" and
    t: "transaction_id t = nextId s" "transaction_loanId t = None" and
    es: "\<forall>e \<in> set es. entry_transactionId e = nextId s" by blast
  show ?thesis
    by (rule post_present[OF assms(3,2) t es]) (auto simp: s')
qed

lemma settleLoans_core:
  "r' \<in> set (settleLoans l i a ls) \<Longrightarrow>
   \<exists>r \<in> set ls. loan_id r' = loan_id r \<and> loan_userId r' = loan_userId r \<and>
     loan_deletedAt r' = loan_deletedAt r"
  by (auto simp: settleLoans_def split: if_splits)

lemma createLoanPayment_present:
  assumes "createLoanPayment d u s = (Inr p, s')" and "ids_fresh s" and "disbursement_present s"
  shows "disbursement_present s'"
proof -
  from createLoanPayment_post[OF assms(1)] obtain l t e where
    s': "s' = s\<lparr>transactions := transactions s @ [t], entries := entries s @ [e],
                  loanPayments := loanPayments s @ [p], nextId := nextId s + 3,
                  wallets := updateBalance (cp_walletId d)
                    (if loan_kind l = you_owe then decrement (cp_amount d)
                     else increment (cp_amount d)) (wallets s),
                  loans := settleLoans l (cp_loanId d) (cp_amount d) (loans s)\<rparr>" and
    t: "transaction_id t = nextId s" "transaction_loanId t = None" and
    e: "entry_transactionId e = nextId s"
    by blast
  from e have es: "\<forall>e' \<in> set [e]. entry_transactionId e' = nextId s" by simp
  show ?thesis
    by (rule post_present[OF assms(3,2) t es]) (auto simp: s' dest: settleLoans_core)
qed

lemma createLoan_present:
  assumes "createLoan d u s = (Inr l, s')" and "ids_fresh s" and "disbursement_present s"
  shows "disbursement_present s'"
proof -
  from createLoan_post[OF assms(1)] obtain t e where
    s': "s' = s\<lparr>loans := loans s @ [l], transactions := transactions s @ [t],
                       entries := entries s @ [e], nextId := nextId s + 3,
                       wallets := updateBalance (cl_walletId d)
                         (if cl_kind d = you_owe then increment (cl_principal d)
                          else decrement (cl_principal d)) (wallets s)\<rparr>" and
    f: "loan_id l = nextId s" "loan_userId l = u" "transaction_userId t = u"
       "transaction_id t = nextId s + 1" "transaction_deletedAt t = None"
       "transaction_loanId t = Some (nextId s)" "entry_transactionId e = nextId s + 1"
    by blast
  have old: "filter (\<lambda>e. entry_transactionId e = transaction_id t0) (entries s @ [e])
      = filter (\<lambda>e. entry_transactionId e = transaction_id t0) (entries s)"
    if "t0 \<in> set (transactions s)" for t0
  proof (rule filter_fresh_append)
    from that assms(2) have "transaction_id t0 < nextId s" by (auto simp: ids_fresh_def)
    with f show "\<forall>e \<in> set [e]. entry_transactionId e \<noteq> transaction_id t0" by auto
  qed
  have new: "filter (\<lambda>e. entry_transactionId e = transaction_id t) (entries s @ [e]) = [e]"
  proof -
    have "\<forall>e \<in> set (entries s). entry_transactionId e \<noteq> transaction_id t"
      using assms(2) f by (auto simp: ids_fresh_def)
    from filter_fresh_old[OF this] show ?thesis using f by simp
  qed
  have d: "distinct (map transaction_id (transactions s'))"
    using assms(2,3) f by (auto simp: s' disbursement_present_def ids_fresh_def)
  have one: "\<forall>t0 \<in> set (transactions s'). transaction_loanId t0 \<noteq> None \<longrightarrow>
        (\<exists>e. filter (\<lambda>e. entry_transactionId e = transaction_id t0) (entries s') = [e])"
    using assms(3) new by (auto simp: s' disbursement_present_def old simp del: filter_append)
  have live: "\<forall>l0 \<in> set (loans s'). loan_deletedAt l0 = None \<longrightarrow>
        (\<exists>t \<in> set (transactions s').
           transaction_userId t = loan_userId l0 \<and> transaction_deletedAt t = None \<and>
           transaction_loanId t = Some (loan_id l0))"
    using assms(3) f by (auto simp: s' disbursement_present_def)
  from d one live show ?thesis unfolding disbursement_present_def by blast
qed

lemma softDeleteTransaction_ids:
  "map transaction_id (softDeleteTransaction n now ts) = map transaction_id ts"
  by (induction ts) (auto simp: softDeleteTransaction_def)

lemma softDeleteTransaction_other:
  "t \<in> set ts \<Longrightarrow> transaction_id t \<noteq> n \<Longrightarrow> t \<in> set (softDeleteTransaction n now ts)"
  by (force simp: softDeleteTransaction_def)

lemma softDeleteLoan_live:
  assumes "r' \<in> set (softDeleteLoan i now ls)" and "loan_deletedAt r' = None"
  shows "r' \<in> set ls \<and> loan_id r' \<noteq> i"
  using assms by (auto simp: softDeleteLoan_def split: if_splits)

lemma deleteLoan_present:
  assumes "deleteLoan i u now s = (Inr r, s')" and "disbursement_present s"
  shows "disbursement_present s'"
proof -
  note fr = deleteLoan_frame[OF assms(1)]
  from fr have e: "entries s' = entries s" and l: "loans s' = softDeleteLoan i now (loans s)"
    by simp_all
  from assms(2) have dist: "distinct (map transaction_id (transactions s))"
    by (simp add: disbursement_present_def)
  from fr have ids: "map transaction_id (transactions s') = map transaction_id (transactions s)"
    by (auto simp: softDeleteTransaction_ids)
  have d: "distinct (map transaction_id (transactions s'))" unfolding ids by (rule dist)
  have one: "\<forall>t0 \<in> set (transactions s'). transaction_loanId t0 \<noteq> None \<longrightarrow>
        (\<exists>e. filter (\<lambda>e. entry_transactionId e = transaction_id t0) (entries s') = [e])"
  proof (intro ballI impI)
    fix t0 assume t0: "t0 \<in> set (transactions s')" "transaction_loanId t0 \<noteq> None"
    from t0(1) fr softDeleteTransaction_core obtain t1 where "t1 \<in> set (transactions s)"
      "transaction_id t0 = transaction_id t1" "transaction_loanId t0 = transaction_loanId t1"
      by metis
    with assms(2) t0(2)
    show "\<exists>e. filter (\<lambda>e. entry_transactionId e = transaction_id t0) (entries s') = [e]"
      unfolding disbursement_present_def e by simp
  qed
  have live: "\<forall>l0 \<in> set (loans s'). loan_deletedAt l0 = None \<longrightarrow>
        (\<exists>t \<in> set (transactions s').
           transaction_userId t = loan_userId l0 \<and> transaction_deletedAt t = None \<and>
           transaction_loanId t = Some (loan_id l0))"
  proof (intro ballI impI)
    fix l0 assume "l0 \<in> set (loans s')" "loan_deletedAt l0 = None"
    with softDeleteLoan_live have l0: "l0 \<in> set (loans s)" "loan_id l0 \<noteq> i"
      unfolding l by blast+
    with assms(2) \<open>loan_deletedAt l0 = None\<close> obtain t0 where
      t0: "t0 \<in> set (transactions s)" "transaction_userId t0 = loan_userId l0"
        "transaction_deletedAt t0 = None" "transaction_loanId t0 = Some (loan_id l0)"
      unfolding disbursement_present_def by blast
    have "t0 \<in> set (transactions s')"
    proof -
      from deleteLoan_post[OF assms(1)] obtain l1 where l1: "ownedLoan s i u = Some l1 \<and>
           ((originatingEntry s l1 u = None \<and>
             s' = s\<lparr>loans := softDeleteLoan i now (loans s)\<rparr>) \<or>
            (\<exists>bt e. originatingEntry s l1 u = Some (bt, e) \<and>
               s' = s\<lparr>wallets := updateBalance (entry_walletId e)
                                    (if loan_kind l1 = you_owe then decrement (principal l1)
                                     else increment (principal l1)) (wallets s),
                      transactions := softDeleteTransaction (transaction_id bt) now
                                        (transactions s),
                      loans := softDeleteLoan i now (loans s)\<rparr>))" ..
      then have own: "ownedLoan s i u = Some l1" ..
      from l1 have "(originatingEntry s l1 u = None \<and>
             s' = s\<lparr>loans := softDeleteLoan i now (loans s)\<rparr>) \<or>
            (\<exists>bt e. originatingEntry s l1 u = Some (bt, e) \<and>
               s' = s\<lparr>wallets := updateBalance (entry_walletId e)
                                    (if loan_kind l1 = you_owe then decrement (principal l1)
                                     else increment (principal l1)) (wallets s),
                      transactions := softDeleteTransaction (transaction_id bt) now
                                        (transactions s),
                      loans := softDeleteLoan i now (loans s)\<rparr>)" ..
      then show ?thesis
      proof
        assume "originatingEntry s l1 u = None \<and>
             s' = s\<lparr>loans := softDeleteLoan i now (loans s)\<rparr>"
        with t0(1) show ?thesis by simp
      next
        assume "\<exists>bt e. originatingEntry s l1 u = Some (bt, e) \<and>
               s' = s\<lparr>wallets := updateBalance (entry_walletId e)
                                    (if loan_kind l1 = you_owe then decrement (principal l1)
                                     else increment (principal l1)) (wallets s),
                      transactions := softDeleteTransaction (transaction_id bt) now
                                        (transactions s),
                      loans := softDeleteLoan i now (loans s)\<rparr>"
        then obtain bt e where both: "originatingEntry s l1 u = Some (bt, e) \<and>
               s' = s\<lparr>wallets := updateBalance (entry_walletId e)
                                    (if loan_kind l1 = you_owe then decrement (principal l1)
                                     else increment (principal l1)) (wallets s),
                      transactions := softDeleteTransaction (transaction_id bt) now
                                        (transactions s),
                      loans := softDeleteLoan i now (loans s)\<rparr>" by (elim exE)
        then have oe: "originatingEntry s l1 u = Some (bt, e)" ..
        from both have ts: "transactions s' =
            softDeleteTransaction (transaction_id bt) now (transactions s)" by simp
        note o = originatingEntry_Some[OF oe]
        from ownedLoan_exists[OF own] have "loan_id l1 = i" by simp
        with o t0(4) l0(2) have "t0 \<noteq> bt" by auto
        with o t0(1) dist have "transaction_id t0 \<noteq> transaction_id bt"
          by (metis distinct_map inj_onD)
        from softDeleteTransaction_other[OF t0(1) this] show ?thesis unfolding ts .
      qed
    qed
    with t0 show "\<exists>t \<in> set (transactions s').
           transaction_userId t = loan_userId l0 \<and> transaction_deletedAt t = None \<and>
           transaction_loanId t = Some (loan_id l0)" by blast
  qed
  from d one live show ?thesis unfolding disbursement_present_def by blast
qed

lemma perform_present:
  assumes "ids_fresh s \<and> disbursement_present s"
  shows "ids_fresh (perform r s) \<and> disbursement_present (perform r s)"
proof (cases r)
  case (CreateTransaction d u)
  show ?thesis
  proof (rule result_cases[of "createTransaction d u" s])
    show "isl (fst (createTransaction d u s)) \<Longrightarrow> snd (createTransaction d u s) = s"
      by (rule createTransaction_error)
  next
    assume "snd (createTransaction d u s) = s"
    with assms CreateTransaction show ?thesis by simp
  next
    fix x assume ok: "createTransaction d u s = (Inr x, snd (createTransaction d u s))"
    from assms createTransaction_ids_fresh[OF ok] createTransaction_present[OF ok]
    show ?thesis by (simp add: CreateTransaction)
  qed
next
  case (CreateLoan d u)
  show ?thesis
  proof (rule result_cases[of "createLoan d u" s])
    show "isl (fst (createLoan d u s)) \<Longrightarrow> snd (createLoan d u s) = s"
      by (rule createLoan_error)
  next
    assume "snd (createLoan d u s) = s"
    with assms CreateLoan show ?thesis by simp
  next
    fix x assume ok: "createLoan d u s = (Inr x, snd (createLoan d u s))"
    from assms createLoan_ids_fresh[OF ok] createLoan_present[OF ok]
    show ?thesis by (simp add: CreateLoan)
  qed
next
  case (CreateLoanPayment d u)
  show ?thesis
  proof (rule result_cases[of "createLoanPayment d u" s])
    show "isl (fst (createLoanPayment d u s)) \<Longrightarrow> snd (createLoanPayment d u s) = s"
      by (rule createLoanPayment_error)
  next
    assume "snd (createLoanPayment d u s) = s"
    with assms CreateLoanPayment show ?thesis by simp
  next
    fix x assume ok: "createLoanPayment d u s = (Inr x, snd (createLoanPayment d u s))"
    from assms createLoanPayment_ids_fresh[OF ok] createLoanPayment_present[OF ok]
    show ?thesis by (simp add: CreateLoanPayment)
  qed
next
  case (DeleteLoan i u now)
  show ?thesis
  proof (rule result_cases[of "deleteLoan i u now" s])
    show "isl (fst (deleteLoan i u now s)) \<Longrightarrow> snd (deleteLoan i u now s) = s"
      by (rule deleteLoan_error)
  next
    assume "snd (deleteLoan i u now s) = s"
    with assms DeleteLoan show ?thesis by simp
  next
    fix x assume ok: "deleteLoan i u now s = (Inr x, snd (deleteLoan i u now s))"
    from assms deleteLoan_ids_fresh[OF ok] deleteLoan_present[OF ok]
    show ?thesis by (simp add: DeleteLoan)
  qed
qed

lemma run_present:
  "ids_fresh s \<and> disbursement_present s \<Longrightarrow>
   ids_fresh (run rs s) \<and> disbursement_present (run rs s)"
proof (induction rs arbitrary: s)
  case Nil
  then show ?case by simp
next
  case (Cons r rs)
  from Cons.IH[OF perform_present[OF Cons.prems]] show ?case by simp
qed

lemma emptyLedger_present: "emptyLedger s \<Longrightarrow> disbursement_present s"
  by (simp add: emptyLedger_def disbursement_present_def)

lemma present_originatingEntry:
  assumes "disbursement_present s" and "l \<in> set (loans s)" and "loan_deletedAt l = None"
  shows "\<exists>bt e. originatingEntry s l (loan_userId l) = Some (bt, e)"
proof -
  let ?P = "\<lambda>t. transaction_userId t = loan_userId l \<and> transaction_deletedAt t = None \<and>
                 transaction_loanId t = Some (loan_id l)"
  from assms have "\<exists>t \<in> set (transactions s). ?P t"
    unfolding disbursement_present_def by blast
  then have "find ?P (transactions s) \<noteq> None" by (auto simp: find_None_iff)
  then obtain bt where bt: "find ?P (transactions s) = Some bt" by blast
  then have "bt \<in> set (transactions s)" "transaction_loanId bt \<noteq> None"
    by (auto simp: find_Some_iff)
  with assms(1) obtain e where
    "filter (\<lambda>e. entry_transactionId e = transaction_id bt) (entries s) = [e]"
    unfolding disbursement_present_def by blast
  with bt have "originatingEntry s l (loan_userId l) = Some (bt, e)"
    by (simp add: originatingEntry_def)
  then show ?thesis by blast
qed

lemma reachable_originatingEntry:
  assumes "emptyLedger s0" and "l \<in> set (loans (run rs s0))" and "loan_deletedAt l = None"
  shows "\<exists>bt e. originatingEntry (run rs s0) l (loan_userId l) = Some (bt, e) \<and>
           signed e = (if loan_kind l = you_owe then principal l else - principal l)"
proof -
  from emptyLedger_invariants[OF assms(1)] emptyLedger_present[OF assms(1)]
  have i: "ids_fresh s0 \<and> disbursement_present s0"
    and j: "ids_fresh s0 \<and> disbursement_linked s0 \<and> balanced s0" by simp_all
  from run_present[OF i, of rs] have p: "disbursement_present (run rs s0)" by simp
  from run_ledger[OF j, of rs] have k: "disbursement_linked (run rs s0)" by simp
  from present_originatingEntry[OF p assms(2,3)] obtain bt e where
    oe: "originatingEntry (run rs s0) l (loan_userId l) = Some (bt, e)" by blast
  note o = originatingEntry_Some[OF oe]
  from k assms(2) o have "signed e = (if loan_kind l = you_owe then principal l else - principal l)"
    unfolding disbursement_linked_def by blast
  with oe show ?thesis by blast
qed

section \<open>Loan service: deletion and its reversal\<close>

text \<open>
  C5, as stated, fails: when no live transaction of the caller carries the loan's
  identifier, \<open>deleteLoan\<close> succeeds, soft-deletes the loan, and leaves every balance and
  every transaction as it was.
\<close>

theorem deleteLoan_reversal_counterexample:
  "fst (deleteLoan 5 7 9 legacy) =
     Inr \<lparr>loan_id = 5, loan_userId = 7, loan_kind = you_owe, principal = 50000,
          outstandingAmount = 50000, startDate = 0, loan_status = LoanOpen,
          loan_deletedAt = Some 9\<rparr> \<and>
   balanceOf legacy 1 = Some 50000 \<and>
   balanceOf (snd (deleteLoan 5 7 9 legacy)) 1 = Some 50000 \<and>
   wallets (snd (deleteLoan 5 7 9 legacy)) = wallets legacy \<and>
   transactions (snd (deleteLoan 5 7 9 legacy)) = transactions legacy"
  by code_simp

text \<open>
  C5, amended. \<open>deleteLoan\<close> on a loan the caller may act on fails with
  \<open>LOAN_HAS_PAYMENTS\<close> whenever at least one payment exists for the loan. Every successful
  \<open>deleteLoan\<close> is on such a loan without payments and soft-deletes it. When the caller's
  live transaction carrying the loan's identifier is found with exactly one entry, the
  call also changes the balance of that entry's wallet by the opposite of the
  disbursement (down by the principal for \<open>you_owe\<close>, up by it for \<open>owed_to_you\<close>) and
  soft-deletes that transaction; otherwise it leaves all balances and transactions
  unchanged. In every store reached from an empty ledger by calls of the four operations,
  that transaction is found for every loan that is not soft-deleted, with exactly one
  entry, whose signed amount is that of the disbursement; so there a successful
  \<open>deleteLoan\<close> always reverses it.
\<close>

theorem deleteLoan_reversal:
  "(ownedLoan s i u = Some l \<and> (\<exists>p \<in> set (loanPayments s). payment_loanId p = i) \<longrightarrow>
      deleteLoan i u now s = (Inl LOAN_HAS_PAYMENTS, s)) \<and>
   (deleteLoan i u now s = (Inr r, s') \<longrightarrow>
      (\<exists>l. ownedLoan s i u = Some l) \<and>
      \<not> (\<exists>p \<in> set (loanPayments s). payment_loanId p = i) \<and>
      loans s' = softDeleteLoan i now (loans s) \<and>
      loan_id r = i \<and> loan_deletedAt r = Some now \<and>
      entries s' = entries s \<and> loanPayments s' = loanPayments s) \<and>
   (deleteLoan i u now s = (Inr r, s') \<and> ownedLoan s i u = Some l \<and>
    originatingEntry s l u = Some (bt, e) \<longrightarrow>
      wallets s' = updateBalance (entry_walletId e)
                     (if loan_kind l = you_owe then decrement (principal l)
                      else increment (principal l)) (wallets s) \<and>
      (\<exists>b. balanceOf s (entry_walletId e) = Some b \<and>
           balanceOf s' (entry_walletId e) =
             Some (if loan_kind l = you_owe then b - principal l else b + principal l)) \<and>
      transactions s' = softDeleteTransaction (transaction_id bt) now (transactions s)) \<and>
   (deleteLoan i u now s = (Inr r, s') \<and> ownedLoan s i u = Some l \<and>
    originatingEntry s l u = None \<longrightarrow>
      wallets s' = wallets s \<and> transactions s' = transactions s) \<and>
   (emptyLedger s0 \<and> l0 \<in> set (loans (run rs s0)) \<and> loan_deletedAt l0 = None \<longrightarrow>
      (\<exists>bt e. originatingEntry (run rs s0) l0 (loan_userId l0) = Some (bt, e) \<and>
         signed e = (if loan_kind l0 = you_owe then principal l0 else - principal l0)))"
proof (intro conjI impI)
  assume "ownedLoan s i u = Some l \<and> (\<exists>p \<in> set (loanPayments s). payment_loanId p = i)"
  then show "deleteLoan i u now s = (Inl LOAN_HAS_PAYMENTS, s)"
    by (simp add: deleteLoan_cases)
next
  assume ok: "deleteLoan i u now s = (Inr r, s')"
  then obtain l0 where l0: "ownedLoan s i u = Some l0"
    by (auto simp: deleteLoan_cases split: option.splits)
  from ok l0 have np: "\<not> (\<exists>p \<in> set (loanPayments s). payment_loanId p = i)"
    by (auto simp: deleteLoan_cases split: if_splits)
  from ok l0 np obtain s1 where s1: "reverseDisbursement l0 u now s = Inr s1"
    and r: "r = (the (find (\<lambda>l. loan_id l = i) (loans s1)))\<lparr>loan_deletedAt := Some now\<rparr>"
    and s': "s' = s1\<lparr>loans := softDeleteLoan i now (loans s1)\<rparr>"
    by (auto simp: deleteLoan_cases split: sum.splits)
  from s1 have kept: "loans s1 = loans s" "entries s1 = entries s"
    "loanPayments s1 = loanPayments s"
    by (auto simp: reverseDisbursement_cases split: option.splits if_splits)
  from ownedLoan_exists[OF l0] have "\<exists>l \<in> set (loans s). loan_id l = i" by blast
  from find_loan_by_id[OF this] obtain l1 where
    l1: "find (\<lambda>l. loan_id l = i) (loans s) = Some l1" ..
  then have "loan_id l1 = i" by (auto simp: find_Some_iff)
  show "\<exists>l. ownedLoan s i u = Some l" using l0 by blast
  show "\<not> (\<exists>p \<in> set (loanPayments s). payment_loanId p = i)" by (rule np)
  show "loans s' = softDeleteLoan i now (loans s)" by (simp add: s' kept)
  show "loan_id r = i" using l1 \<open>loan_id l1 = i\<close> by (simp add: r kept)
  show "loan_deletedAt r = Some now" by (simp add: r)
  show "entries s' = entries s" by (simp add: s' kept)
  show "loanPayments s' = loanPayments s" by (simp add: s' kept)
next
  assume a: "deleteLoan i u now s = (Inr r, s') \<and> ownedLoan s i u = Some l \<and>
    originatingEntry s l u = Some (bt, e)"
  then have ex: "\<exists>w \<in> set (wallets s). wallet_id w = entry_walletId e"
    and w': "wallets s' = updateBalance (entry_walletId e)
                     (if loan_kind l = you_owe then decrement (principal l)
                      else increment (principal l)) (wallets s)"
    and t': "transactions s' = softDeleteTransaction (transaction_id bt) now (transactions s)"
    by (auto simp: deleteLoan_cases reverseDisbursement_cases split: if_splits)
  from ex obtain b where b: "balanceOf s (entry_walletId e) = Some b"
    by (cases "find (\<lambda>w. wallet_id w = entry_walletId e) (wallets s)")
       (auto simp: balanceOf_def find_None_iff)
  show "wallets s' = updateBalance (entry_walletId e)
                     (if loan_kind l = you_owe then decrement (principal l)
                      else increment (principal l)) (wallets s)" by (rule w')
  show "transactions s' = softDeleteTransaction (transaction_id bt) now (transactions s)"
    by (rule t')
  show "\<exists>b. balanceOf s (entry_walletId e) = Some b \<and>
           balanceOf s' (entry_walletId e) =
             Some (if loan_kind l = you_owe then b - principal l else b + principal l)"
    using b by (simp add: balanceOf_updateBalance'[OF w'] increment_def decrement_def)
next
  assume a: "deleteLoan i u now s = (Inr r, s') \<and> ownedLoan s i u = Some l \<and>
    originatingEntry s l u = None"
  then show "wallets s' = wallets s" "transactions s' = transactions s"
    by (auto simp: deleteLoan_cases reverseDisbursement_cases split: if_splits)
next
  assume "emptyLedger s0 \<and> l0 \<in> set (loans (run rs s0)) \<and> loan_deletedAt l0 = None"
  then have a: "emptyLedger s0" "l0 \<in> set (loans (run rs s0))" "loan_deletedAt l0 = None"
    by simp_all
  show "\<exists>bt e. originatingEntry (run rs s0) l0 (loan_userId l0) = Some (bt, e) \<and>
         signed e = (if loan_kind l0 = you_owe then principal l0 else - principal l0)"
    by (rule reachable_originatingEntry[OF a])
qed

theorem deleteLoan_reversal_witness:
  "deleteLoan 10 7 9 demo_paid = (Inl LOAN_HAS_PAYMENTS, demo_paid) \<and>
   fst (deleteLoan 10 7 9 demo_loan) =
     Inr \<lparr>loan_id = 10, loan_userId = 7, loan_kind = you_owe, principal = 50000,
          outstandingAmount = 50000, startDate = 0, loan_status = LoanOpen,
          loan_deletedAt = Some 9\<rparr> \<and>
   balanceOf demo_loan 1 = Some 100000 \<and>
   balanceOf (snd (deleteLoan 10 7 9 demo_loan)) 1 = Some 50000 \<and>
   map transaction_deletedAt (transactions (snd (deleteLoan 10 7 9 demo_loan))) = [Some 9] \<and>
   map loan_deletedAt (loans (snd (deleteLoan 10 7 9 demo_loan))) = [Some 9] \<and>
   originatingEntry legacy \<lparr>loan_id = 5, loan_userId = 7, loan_kind = you_owe,
       principal = 50000, outstandingAmount = 50000, startDate = 0, loan_status = LoanOpen,
       loan_deletedAt = None\<rparr> 7 = None \<and>
   wallets (snd (deleteLoan 5 7 9 legacy)) = wallets legacy \<and>
   originatingEntry (run demo_history demo)
     \<lparr>loan_id = 10, loan_userId = 7, loan_kind = you_owe, principal = 50000,
      outstandingAmount = 0, startDate = 0, loan_status = LoanClosed,
      loan_deletedAt = None\<rparr> 7 \<noteq> None"
proof -
  let ?l = "\<lparr>loan_id = 10, loan_userId = 7, loan_kind = you_owe, principal = 50000,
             outstandingAmount = 50000, startDate = 0, loan_status = LoanOpen,
             loan_deletedAt = None\<rparr>"
  let ?lc = "?l\<lparr>outstandingAmount := 0, loan_status := LoanClosed\<rparr>"
  let ?r = "?l\<lparr>loan_deletedAt := Some 9\<rparr>"
  let ?bt = "\<lparr>transaction_id = 11, transaction_userId = 7, transaction_type = income,
              transactionDate = 0, transaction_categoryId = None, transaction_amount = 50000,
              transaction_deletedAt = None, transaction_loanId = Some 10\<rparr>"
  let ?e = "\<lparr>entry_id = 12, entry_transactionId = 11, entry_walletId = 1,
             entry_direction = DirIn, entry_amount = 50000\<rparr>"
  let ?s' = "snd (deleteLoan 10 7 9 demo_loan)"
  let ?l5 = "\<lparr>loan_id = 5, loan_userId = 7, loan_kind = you_owe,
       principal = 50000, outstandingAmount = 50000, startDate = 0, loan_status = LoanOpen,
       loan_deletedAt = None\<rparr>"
  let ?r5 = "?l5\<lparr>loan_deletedAt := Some 9\<rparr>"
  have h1: "ownedLoan demo_paid 10 7 = Some ?lc \<and>
      (\<exists>p \<in> set (loanPayments demo_paid). payment_loanId p = 10)" by code_simp
  have h2: "deleteLoan 10 7 9 demo_loan = (Inr ?r, ?s')" by code_simp
  have h3: "ownedLoan demo_loan 10 7 = Some ?l" by code_simp
  have h4: "originatingEntry demo_loan ?l 7 = Some (?bt, ?e)" by code_simp
  have h5: "balanceOf demo_loan 1 = Some 100000" by code_simp
  have h6: "transactions demo_loan = [?bt]" by code_simp
  have h7: "loans demo_loan = [?l]" by code_simp
  have h8: "deleteLoan 5 7 9 legacy = (Inr ?r5, snd (deleteLoan 5 7 9 legacy))" by code_simp
  have h9: "ownedLoan legacy 5 7 = Some ?l5" by code_simp
  have h10: "originatingEntry legacy ?l5 7 = None" by code_simp
  note t1 = deleteLoan_reversal[where s = demo_paid and i = 10 and u = 7 and l = ?lc and now = 9]
  note t2 = deleteLoan_reversal[where s = demo_loan and i = 10 and u = 7 and l = ?l and now = 9
      and r = ?r and s' = ?s' and bt = ?bt and e = ?e]
  note t3 = deleteLoan_reversal[where s = legacy and i = 5 and u = 7 and l = ?l5 and now = 9
      and r = ?r5 and s' = "snd (deleteLoan 5 7 9 legacy)"]
  from t1 h1 have c1: "deleteLoan 10 7 9 demo_paid = (Inl LOAN_HAS_PAYMENTS, demo_paid)"
    by blast
  from t2 h2 h3 h4 have "\<exists>b. balanceOf demo_loan (entry_walletId ?e) = Some b \<and>
           balanceOf ?s' (entry_walletId ?e) =
             Some (if loan_kind ?l = you_owe then b - principal ?l else b + principal ?l)"
    by blast
  with h5 have c2: "balanceOf ?s' 1 = Some 50000" by simp
  from t2 h2 h3 h4 have "transactions ?s' =
      softDeleteTransaction (transaction_id ?bt) 9 (transactions demo_loan)" by blast
  then have c3: "map transaction_deletedAt (transactions ?s') = [Some 9]"
    by (simp add: h6 softDeleteTransaction_def)
  from t2 h2 have "loans ?s' = softDeleteLoan 10 9 (loans demo_loan)" by blast
  then have c4: "map loan_deletedAt (loans ?s') = [Some 9]"
    by (simp add: h7 softDeleteLoan_def)
  from t3 h8 h9 h10 have c5: "wallets (snd (deleteLoan 5 7 9 legacy)) = wallets legacy"
    by blast
  have c6: "fst (deleteLoan 10 7 9 demo_loan) = Inr ?r" by (subst h2) simp
  have h11: "emptyLedger demo" by code_simp
  have h12: "?lc \<in> set (loans (run demo_history demo))" by code_simp
  have h13: "loan_deletedAt ?lc = None" by simp
  note t4 = deleteLoan_reversal[where ?s0.0 = demo and rs = demo_history and ?l0.0 = ?lc,
      THEN conjunct2, THEN conjunct2, THEN conjunct2, THEN conjunct2]
  from t4 h11 h12 h13
  have "\<exists>bt e. originatingEntry (run demo_history demo) ?lc (loan_userId ?lc) = Some (bt, e) \<and>
         signed e = (if loan_kind ?lc = you_owe then principal ?lc else - principal ?lc)"
    by blast
  then obtain bt e where "originatingEntry (run demo_history demo) ?lc (loan_userId ?lc) = Some (bt, e)"
    by blast
  then have c7: "originatingEntry (run demo_history demo) ?lc 7 \<noteq> None" by simp
  from c1 c6 h5 c2 c3 c4 h10 c5 c7 show ?thesis by simp
qed

section \<open>Amounts as JavaScript numbers: where the services are exact\<close>

lemma floorlog2_nonneg: "0 \<le> floorlog2 n"
  by (induction n rule: floorlog2.induct) (subst floorlog2.simps, simp)

lemma floorlog2_bounds:
  "1 \<le> n \<Longrightarrow> 2 ^ nat (floorlog2 n) \<le> n \<and> n < 2 ^ nat (floorlog2 n + 1)"
proof (induction n rule: floorlog2.induct)
  case (1 n)
  show ?case
  proof (cases "n < 2")
    case True
    with 1(2) have "n = 1" by simp
    then show ?thesis by (subst (1 2) floorlog2.simps) simp
  next
    case False
    then have h: "1 \<le> n div 2" by simp
    from 1(1)[OF False h] have ih: "2 ^ nat (floorlog2 (n div 2)) \<le> n div 2"
      "n div 2 < 2 ^ nat (floorlog2 (n div 2) + 1)" by simp_all
    have e: "floorlog2 n = 1 + floorlog2 (n div 2)" using False by (subst floorlog2.simps) simp
    have n1: "nat (1 + floorlog2 (n div 2)) = Suc (nat (floorlog2 (n div 2)))"
      using floorlog2_nonneg[of "n div 2"] by simp
    have n2: "nat (1 + floorlog2 (n div 2) + 1) = Suc (nat (floorlog2 (n div 2) + 1))"
      using floorlog2_nonneg[of "n div 2"] by simp
    from ih show ?thesis unfolding e n1 n2 by (simp, linarith)
  qed
qed

lemma pow2_powi: "pow2 e = 2 powi e"
  by (simp add: pow2_def power_int_def field_simps)

lemma pow2_pos: "0 < pow2 e"
  by (simp add: pow2_powi)

lemma pow2_mono: "a \<le> b \<Longrightarrow> pow2 a \<le> pow2 b"
  by (simp add: pow2_powi power_int_increasing)

lemma pow2_nat: "0 \<le> k \<Longrightarrow> pow2 k = of_int (2 ^ nat k)"
  by (simp add: pow2_def)

lemma binaryExponent_lower:
  assumes "0 < x"
  shows "pow2 (binaryExponent x) \<le> x"
proof (cases "1 \<le> x")
  case True
  then have f: "1 \<le> \<lfloor>x\<rfloor>" by simp
  from floorlog2_bounds[OF f] have "2 ^ nat (floorlog2 \<lfloor>x\<rfloor>) \<le> \<lfloor>x\<rfloor>" by simp
  then have "(of_int (2 ^ nat (floorlog2 \<lfloor>x\<rfloor>)) :: rat) \<le> of_int \<lfloor>x\<rfloor>"
    by (simp only: of_int_le_iff)
  also have "\<dots> \<le> x" by simp
  finally show ?thesis
    using True by (simp add: binaryExponent_def pow2_nat[OF floorlog2_nonneg])
next
  case False
  define y where "y = 1 / x"
  define k where "k = floorlog2 \<lfloor>y\<rfloor>"
  from assms False have y1: "1 < y" by (simp add: y_def)
  then have f: "1 \<le> \<lfloor>y\<rfloor>" by simp
  have k0: "0 \<le> k" by (simp add: k_def floorlog2_nonneg)
  have xy: "x = 1 / y" using assms by (simp add: y_def)
  have be: "binaryExponent x = (if y = pow2 k then - k else - k - 1)"
    using False by (simp add: binaryExponent_def Let_def y_def k_def)
  show ?thesis
  proof (cases "y = pow2 k")
    case True
    have "pow2 (- k) = 1 / pow2 k" by (simp add: pow2_powi power_int_minus field_simps)
    also have "\<dots> = x" using True xy by simp
    finally have "pow2 (- k) \<le> x" by simp
    moreover have "binaryExponent x = - k" using be True by simp
    ultimately show ?thesis by simp
  next
    case ne: False
    from floorlog2_bounds[OF f] have "\<lfloor>y\<rfloor> < 2 ^ nat (k + 1)" by (simp add: k_def)
    then have "\<lfloor>y\<rfloor> + 1 \<le> 2 ^ nat (k + 1)" by simp
    then have "(of_int (\<lfloor>y\<rfloor> + 1) :: rat) \<le> of_int (2 ^ nat (k + 1))"
      by (simp only: of_int_le_iff)
    moreover have "y < of_int (\<lfloor>y\<rfloor> + 1)" by linarith
    ultimately have "y \<le> pow2 (k + 1)" using k0 by (simp add: pow2_nat)
    then have "1 / pow2 (k + 1) \<le> 1 / y" using y1 pow2_pos[of "k + 1"]
      by (simp add: field_simps)
    moreover have "pow2 (- k - 1) = 1 / pow2 (k + 1)"
    proof -
      have "- k - 1 = - (k + 1)" by simp
      then have "pow2 (- k - 1) = 2 powi (- (k + 1))" by (simp only: pow2_powi)
      also have "\<dots> = inverse (2 powi (k + 1))" by (rule power_int_minus)
      also have "\<dots> = 1 / pow2 (k + 1)" by (simp add: pow2_powi inverse_eq_divide)
      finally show ?thesis .
    qed
    ultimately have "pow2 (- k - 1) \<le> x" using xy by simp
    moreover have "binaryExponent x = - k - 1" using be ne by simp
    ultimately show ?thesis by simp
  qed
qed

lemma roundHalfEven_error: "\<bar>of_int (roundHalfEven q) - q\<bar> \<le> 1 / 2"
proof -
  have "of_int \<lfloor>q\<rfloor> \<le> q" "q < of_int \<lfloor>q\<rfloor> + 1" by linarith+
  then show ?thesis by (auto simp: roundHalfEven_def Let_def)
qed

lemma nearestDouble_minus: "nearestDouble (- x) = - nearestDouble x"
  by (simp add: nearestDouble_def Let_def)

lemma nearestDouble_error_pos:
  assumes "0 < x" and "x < 2 ^ 46"
  shows "\<bar>nearestDouble x - x\<bar> \<le> 1 / 256"
proof -
  define k where "k = binaryExponent x"
  define p where "p = pow2 (k - 52)"
  define m where "m = roundHalfEven (x / p)"
  have p0: "0 < p" by (simp add: p_def pow2_pos)
  have "k < 46"
  proof (rule ccontr)
    assume "\<not> k < 46"
    then have "pow2 46 \<le> pow2 k" by (intro pow2_mono) simp
    also have "\<dots> \<le> x" unfolding k_def by (rule binaryExponent_lower[OF assms(1)])
    finally show False using assms(2) by (simp add: pow2_def)
  qed
  then have "p \<le> pow2 (- 7)" unfolding p_def by (intro pow2_mono) simp
  then have p7: "p \<le> 1 / 128" by (simp add: pow2_def)
  have nd: "nearestDouble x = of_int m * p"
    using assms(1) by (simp add: nearestDouble_def Let_def k_def p_def m_def)
  have "of_int m * p - x = (of_int m - x / p) * p" using p0 by (simp add: field_simps)
  then have "\<bar>of_int m * p - x\<bar> = \<bar>of_int m - x / p\<bar> * p"
    using p0 by (simp add: abs_mult)
  also have "\<dots> \<le> (1 / 2) * p"
    using roundHalfEven_error[of "x / p"] p0 unfolding m_def
    by (intro mult_right_mono) simp_all
  also have "\<dots> \<le> 1 / 256" using p7 by simp
  finally show ?thesis by (simp add: nd)
qed

lemma nearestDouble_error:
  assumes "\<bar>x\<bar> \<le> 2 ^ 46"
  shows "\<bar>nearestDouble x - x\<bar> \<le> 1 / 256"
proof -
  have top: "nearestDouble (2 ^ 46) = 2 ^ 46" by code_simp
  consider "x = 0" | "x = 2 ^ 46" | "x = - (2 ^ 46)" | "0 < x" "x < 2 ^ 46"
    | "x < 0" "- x < 2 ^ 46"
    using assms by fastforce
  then show ?thesis
  proof cases
    case 1
    then show ?thesis by (simp add: nearestDouble_def)
  next
    case 2
    show ?thesis unfolding 2 top by simp
  next
    case 3
    show ?thesis unfolding 3 nearestDouble_minus top by simp
  next
    case 4
    then show ?thesis by (rule nearestDouble_error_pos)
  next
    case 5
    then have "\<bar>nearestDouble (- x) - (- x)\<bar> \<le> 1 / 256"
      by (intro nearestDouble_error_pos) simp_all
    moreover have "\<bar>nearestDouble x - x\<bar> = \<bar>nearestDouble (- x) - (- x)\<bar>"
      unfolding nearestDouble_minus by linarith
    ultimately show ?thesis by simp
  qed
qed

lemma toNumber_error:
  assumes "comparable v"
  shows "\<bar>toNumber v - of_int v / 100\<bar> \<le> 1 / 256"
proof -
  from assms have "\<bar>v\<bar> \<le> 100 * 2 ^ 46" by (simp add: comparable_def)
  then have "(of_int \<bar>v\<bar> :: rat) \<le> of_int (100 * 2 ^ 46)" by (simp only: of_int_le_iff)
  then have "\<bar>(of_int v :: rat) / 100\<bar> \<le> 2 ^ 46" by simp
  then show ?thesis unfolding toNumber_def by (rule nearestDouble_error)
qed

lemma toNumber_less:
  assumes "comparable a" and "comparable b" and "a < b"
  shows "toNumber a < toNumber b"
proof -
  from assms(3) have "a + 1 \<le> b" by simp
  then have "(of_int (a + 1) :: rat) \<le> of_int b" by (simp only: of_int_le_iff)
  then have "(of_int a :: rat) / 100 + 1 / 100 \<le> of_int b / 100" by simp
  with toNumber_error[OF assms(1)] toNumber_error[OF assms(2)] show ?thesis by linarith
qed

text \<open>
  On \<open>comparable\<close> values the comparisons of the services are the comparisons of the values.
\<close>

lemma toNumber_less_iff:
  assumes "comparable a" and "comparable b"
  shows "toNumber a < toNumber b \<longleftrightarrow> a < b"
proof (cases a b rule: linorder_cases)
  case less
  with toNumber_less[OF assms] show ?thesis by simp
next
  case equal
  then show ?thesis by simp
next
  case greater
  with toNumber_less[OF assms(2,1)] show ?thesis by simp
qed

lemma exceedsOutstanding_iff:
  assumes "comparable a" and "comparable outstanding"
  shows "exceedsOutstanding (of_int a / 100) outstanding \<longleftrightarrow> outstanding < a"
  using toNumber_less_iff[OF assms(2,1)]
  by (simp add: exceedsOutstanding_def toNumber_def)

lemma decimal_18_2_hundredths:
  assumes "\<bar>n\<bar> < 10 ^ 18"
  shows "decimal_18_2 (of_int n / 100) = Some n"
proof -
  have a: "\<lfloor>(of_int n :: rat) + 1 / 2\<rfloor> = n" by linarith
  have b: "\<lfloor>- (of_int n :: rat) + 1 / 2\<rfloor> = - n" by linarith
  have c: "(0 \<le> (of_int n :: rat) / 100) = (0 \<le> n)" by simp
  have f: "\<lfloor>(1 :: rat) / 2\<rfloor> = 0" by (simp add: floor_eq_iff)
  show ?thesis using assms by (auto simp: decimal_18_2_def Let_def a b c f)
qed

lemma decimal_18_2_comparable:
  assumes "comparable a"
  shows "decimal_18_2 (of_int a / 100) = Some a"
proof -
  from assms have "\<bar>a\<bar> < 10 ^ 18" by (simp add: comparable_def)
  then show ?thesis by (rule decimal_18_2_hundredths)
qed

lemma decimal_18_2_difference:
  assumes "comparable b" and "comparable a"
  shows "decimal_18_2 (of_int b / 100 - of_int a / 100) = Some (b - a)"
proof -
  from assms have "\<bar>b - a\<bar> < 10 ^ 18" by (simp add: comparable_def)
  then have "decimal_18_2 (of_int (b - a) / 100) = Some (b - a)"
    by (rule decimal_18_2_hundredths)
  then show ?thesis by (simp add: diff_divide_distrib)
qed

lemma validateWalletOwnership_number_hundredths:
  assumes "\<forall>x \<in> set (wallets s). comparable (currentBalance x)" and "comparable a"
  shows "validateWalletOwnership_number w u (Some (of_int a / 100)) s
           = map_sum Thrown id (txn_validateWalletOwnership w u (Some a) s)"
proof (cases "find (\<lambda>x. wallet_id x = w \<and> wallet_userId x = u \<and> \<not> isArchived x) (wallets s)")
  case None
  then show ?thesis
    by (simp add: validateWalletOwnership_number_def txn_validateWalletOwnership_def)
next
  case (Some x)
  then have "x \<in> set (wallets s)" by (auto simp: find_Some_iff)
  with assms(1) have "comparable (currentBalance x)" by blast
  from toNumber_less_iff[OF this assms(2)] Some show ?thesis
    by (simp add: validateWalletOwnership_number_def txn_validateWalletOwnership_def
        toNumber_def[symmetric])
qed

lemma recheckBalance_number_hundredths:
  assumes "\<forall>x \<in> set (wallets s). comparable (currentBalance x)" and "comparable a"
  shows "recheckBalance_number w (of_int a / 100) s = map_sum Thrown id (recheckBalance w a s)"
proof (cases "find (\<lambda>x. wallet_id x = w) (wallets s)")
  case None
  then show ?thesis by (simp add: recheckBalance_number_def recheckBalance_def)
next
  case (Some x)
  then have "x \<in> set (wallets s)" by (auto simp: find_Some_iff)
  with assms(1) have "comparable (currentBalance x)" by blast
  from toNumber_less_iff[OF this assms(2)] Some show ?thesis
    by (simp add: recheckBalance_number_def recheckBalance_def toNumber_def[symmetric])
qed

lemma updateBalance_found:
  assumes "distinct (map wallet_id ws)" and "find (\<lambda>x. wallet_id x = i) ws = Some x"
  shows "updateBalance i (\<lambda>_. f (currentBalance x)) ws = updateBalance i f ws"
proof -
  from assms(2) have x: "x \<in> set ws" "wallet_id x = i" by (auto simp: find_Some_iff)
  from assms(1) have inj: "inj_on wallet_id (set ws)" by (simp add: distinct_map)
  have "\<And>y. y \<in> set ws \<Longrightarrow> wallet_id y = i \<Longrightarrow> y = x"
    using inj x by (auto dest: inj_onD)
  then show ?thesis unfolding updateBalance_def by (intro map_cong) auto
qed

lemma wallet_decrement_number_hundredths:
  assumes "distinct (map wallet_id (wallets s))"
    and "\<forall>x \<in> set (wallets s). comparable (currentBalance x)" and "comparable a"
  shows "wallet_decrement_number i (of_int a / 100) s
           = map_sum Thrown id (wallet_update i (decrement a) s)"
proof (cases "find (\<lambda>x. wallet_id x = i) (wallets s)")
  case None
  then have "\<not> (\<exists>x \<in> set (wallets s). wallet_id x = i)" by (auto simp: find_None_iff)
  with None show ?thesis by (simp add: wallet_decrement_number_def wallet_update_def)
next
  case (Some x)
  then have x: "x \<in> set (wallets s)" "wallet_id x = i" by (auto simp: find_Some_iff)
  with assms(2) have "comparable (currentBalance x)" by blast
  note d = decimal_18_2_difference[OF this assms(3)]
  from x have ex: "\<exists>x \<in> set (wallets s). wallet_id x = i" by blast
  from updateBalance_found[OF assms(1) Some, of "decrement a"]
  have "updateBalance i (\<lambda>_. currentBalance x - a) (wallets s)
          = updateBalance i (decrement a) (wallets s)"
    by (simp add: decrement_def)
  with Some d ex show ?thesis by (simp add: wallet_decrement_number_def wallet_update_def)
qed

text \<open>
  On a store with distinct wallet identifiers and \<open>comparable\<close> balances, and for a
  \<open>comparable\<close> amount of whole hundredths, the expense on numbers is the expense on
  hundredths: same result, same store.
\<close>

lemma createExpenseTransaction_number_hundredths:
  assumes "distinct (map wallet_id (wallets s))"
    and "\<forall>x \<in> set (wallets s). comparable (currentBalance x)" and "comparable a"
  shows "createExpenseTransaction_number w c dt (of_int a / 100) u s
           = (map_sum Thrown id (fst (createExpenseTransaction w c dt a u s)),
              snd (createExpenseTransaction w c dt a u s))"
proof -
  let ?tx1 = "snd (transaction_create u expense dt (Some c) a None [(w, DirOut, a)] s)"
  have w1: "wallets ?tx1 = wallets s" by (simp add: transaction_create_def Let_def)
  have dec: "wallet_decrement_number w (of_int a / 100) ?tx1
               = map_sum Thrown id (wallet_update w (decrement a) ?tx1)"
    by (rule wallet_decrement_number_hundredths) (simp_all add: w1 assms)
  show ?thesis
    using dec
    by (auto simp: createExpenseTransaction_number_def createExpenseTransaction_def
        prisma_transaction_def validateWalletOwnership_number_hundredths[OF assms(2,3)]
        recheckBalance_number_hundredths[OF assms(2,3)] decimal_18_2_comparable[OF assms(3)]
        split: sum.splits prod.splits)
qed

section \<open>Amounts the services mishandle\<close>

text \<open>
  C1, on the code. A wallet opened with 0.02 holds 0.02 and has no entry. An expense of
  0.015 on it is accepted; the entry stores the amount rounded to 0.02, the balance stores
  0.02 - 0.015 rounded to 0.01. Afterwards the opening balance plus the signed sum of the
  entries is 0.02 - 0.02 = 0.00, and the current balance is 0.01.
\<close>

theorem expense_rounding_breaks_balance:
  "map (\<lambda>w. (wallet_id w, openingBalance w, currentBalance w)) (wallets two_cents) = [(1, 2, 2)] \<and>
   ledgerSum (transactions two_cents) (entries two_cents) 1 = 0 \<and>
   \<not> isl (fst (createExpenseTransaction_number 1 3 0 (15 / 1000) 7 two_cents)) \<and>
   map (\<lambda>e. (entry_walletId e, entry_direction e, entry_amount e))
       (entries (snd (createExpenseTransaction_number 1 3 0 (15 / 1000) 7 two_cents)))
     = [(1, DirOut, 2)] \<and>
   map (\<lambda>w. (wallet_id w, openingBalance w, currentBalance w))
       (wallets (snd (createExpenseTransaction_number 1 3 0 (15 / 1000) 7 two_cents)))
     = [(1, 2, 1)] \<and>
   ledgerSum (transactions (snd (createExpenseTransaction_number 1 3 0 (15 / 1000) 7 two_cents)))
             (entries (snd (createExpenseTransaction_number 1 3 0 (15 / 1000) 7 two_cents))) 1
     = - 2"
  by code_simp

text \<open>
  The balance check of an expense above \<open>2 ^ 46\<close> units: a wallet that holds 70368744177664.01
  pays out 70368744177664.02 and is left with -0.01.
\<close>

lemma expense_guard_misses_hundredth:
  "\<not> isl (fst (createExpenseTransaction_number 1 3 0 (7036874417766402 / 100) 7 large_wallet)) \<and>
   map currentBalance
       (wallets (snd (createExpenseTransaction_number 1 3 0 (7036874417766402 / 100) 7
                        large_wallet)))
     = [- 1]"
  by code_simp


end
